theory Spec2Isabelle
  imports Complex_Main "HOL-Library.Mapping" "HOL-Library.AList_Mapping" "HOL-Library.Word"
    "HOL-Library.Log_Nat"
begin

section \<open>Time\<close>

text \<open>
  A \<open>time.Time\<close> is an instant, counted in nanoseconds; a \<open>time.Duration\<close> is a
  number of nanoseconds. Every operation that reads the clock (\<open>time.Now()\<close>) takes
  the instant it reads as its argument \<open>now\<close>.
\<close>

type_synonym time = int
type_synonym duration = int

definition Minute :: duration where
  "Minute = 60000000000"

definition Hour :: duration where
  "Hour = 3600000000000"

definition After :: "time \<Rightarrow> time \<Rightarrow> bool" where
  "After t u = (u < t)"

text \<open>
  The instants are counted from the zero value of \<open>time.Time\<close>, the value of a struct
  field that was never set.
\<close>

definition IsZero :: "time \<Rightarrow> bool" where
  "IsZero t = (t = 0)"

section \<open>RateLimiter (api/middleware)\<close>

record visitor =
  requests :: int
  resetTime :: time

record RateLimiter =
  visitors :: "(string, visitor) mapping"
  rate :: int
  window :: duration

definition NewRateLimiter :: "int \<Rightarrow> duration \<Rightarrow> RateLimiter" where
  "NewRateLimiter r w = \<lparr>visitors = Mapping.empty, rate = r, window = w\<rparr>"

text \<open>
  \<open>Allow\<close> runs under the limiter's mutex, so a call is one atomic step on the visitor
  table. The stored visitor is a pointer: \<open>v.requests++\<close> changes the table's entry.
\<close>

definition Allow :: "RateLimiter \<Rightarrow> time \<Rightarrow> string \<Rightarrow> bool \<times> RateLimiter" where
  "Allow rl now ip =
     (let fresh = rl\<lparr>visitors :=
                    Mapping.update ip \<lparr>requests = 1, resetTime = now + window rl\<rparr> (visitors rl)\<rparr>
      in case Mapping.lookup (visitors rl) ip of
           None \<Rightarrow> (True, fresh)
         | Some v \<Rightarrow>
             if After now (resetTime v) then (True, fresh)
             else if requests v < rate rl then
               (True, rl\<lparr>visitors :=
                         Mapping.update ip (v\<lparr>requests := requests v + 1\<rparr>) (visitors rl)\<rparr>)
             else (False, rl))"

text \<open>One pass of the sweep of \<open>cleanupVisitors\<close>: every elapsed window is dropped.\<close>

definition cleanupVisitors :: "RateLimiter \<Rightarrow> time \<Rightarrow> RateLimiter" where
  "cleanupVisitors rl now =
     rl\<lparr>visitors := Mapping.filter (\<lambda>ip v. \<not> After now (resetTime v)) (visitors rl)\<rparr>"

text \<open>Successive calls of one client, at the given instants; the answers in order.\<close>

fun Allow_seq :: "RateLimiter \<Rightarrow> string \<Rightarrow> time list \<Rightarrow> bool list \<times> RateLimiter" where
  "Allow_seq rl ip [] = ([], rl)"
| "Allow_seq rl ip (t # ts) =
     (case Allow rl t ip of
        (b, rl') \<Rightarrow> (case Allow_seq rl' ip ts of (bs, rl'') \<Rightarrow> (b # bs, rl'')))"

text \<open>The client has no window at instant \<open>t\<close>: no entry, or an entry whose window has elapsed.\<close>

definition no_window :: "RateLimiter \<Rightarrow> string \<Rightarrow> time \<Rightarrow> bool" where
  "no_window rl ip t =
     (case Mapping.lookup (visitors rl) ip of
        None \<Rightarrow> True
      | Some v \<Rightarrow> After t (resetTime v))"


section \<open>Errors\<close>

text \<open>
  The sentinel errors of the service, the errors the backends report, and the two ways
  the code builds errors: \<open>errors.New\<close> / \<open>fmt.Errorf\<close> with a plain message
  (\<open>New\<close>) and \<open>fmt.Errorf("...: %w", err)\<close> (\<open>Wrap\<close>). \<open>UniqueViolation\<close> is what
  the database answers to an insert that breaks the unique index on \<open>code\<close> or a
  primary key; \<open>ForeignKeyViolation\<close> is what it answers to an insert into
  \<open>access_statistics\<close> whose \<open>short_code_id\<close> is the \<open>id\<close> of no row of
  \<open>short_codes\<close>; \<open>BackendError\<close> stands for every other failure of the database or
  of the cache (connection loss, timeout, other constraints). \<open>Panic\<close> is a run-time
  panic.
\<close>

datatype error =
    ErrInvalidURL
  | ErrCodeExists
  | ErrCodeNotFound
  | ErrInvalidCode
  | UniqueViolation
  | ForeignKeyViolation
  | BackendError
  | Panic
  | New string
  | Wrap string error

text \<open>
  \<open>errors.Is\<close>: the chain of wrapped errors is searched for the target. A wrapper built
  by \<open>fmt.Errorf\<close> is a fresh value, never itself a sentinel.
\<close>

fun errors_Is :: "error \<Rightarrow> error \<Rightarrow> bool" where
  "errors_Is (Wrap m e) target = errors_Is e target"
| "errors_Is e target = (e = target)"

section \<open>Model (internal/model)\<close>

record ShortCode =
  ID :: nat
  Code :: string
  OriginalURL :: string
  CreatedAt :: time
  UpdatedAt :: time
  ExpiresAt :: "time option"
  ClickCount :: int
  LastAccessedAt :: "time option"
  DeletedAt :: "time option"

record ClickLog =
  cl_ID :: nat
  cl_ShortCodeID :: nat
  cl_IPAddress :: string
  cl_UserAgent :: string
  cl_Referer :: string
  cl_CreatedAt :: time

record AccessStatistics =
  as_ID :: nat
  as_ShortCodeID :: nat
  as_IPAddress :: string
  as_Country :: string
  as_Region :: string
  as_City :: string
  as_HourBucket :: time
  as_AccessCount :: int
  as_CreatedAt :: time
  as_UpdatedAt :: time

record CreateShortCodeRequest =
  URL :: string
  CustomCode :: string
  ExpiresIn :: int

record CreateShortCodeResponse =
  resp_ShortCode :: string
  resp_ShortURL :: string
  resp_OriginalURL :: string
  resp_CreatedAt :: time
  resp_ExpiresAt :: "time option"

record ShortCodeStats =
  st_Code :: string
  st_OriginalURL :: string
  st_ClickCount :: int
  st_CreatedAt :: time
  st_LastAccessedAt :: "time option"

record HourlyStatItem =
  hs_HourBucket :: time
  hs_AccessCount :: int
  hs_UniqueIPs :: int

record LocationStatItem =
  ls_Country :: string
  ls_Region :: string
  ls_City :: string
  ls_AccessCount :: int

record RecentAccessItem =
  ra_IPAddress :: string
  ra_Country :: string
  ra_Region :: string
  ra_City :: string
  ra_AccessTime :: time
  ra_UserAgent :: string

record DetailedStats =
  ds_Code :: string
  ds_OriginalURL :: string
  ds_TotalClicks :: int
  ds_UniqueIPs :: int
  ds_CreatedAt :: time
  ds_LastAccessedAt :: "time option"
  ds_HourlyStats :: "HourlyStatItem list"
  ds_LocationStats :: "LocationStatItem list"
  ds_RecentAccesses :: "RecentAccessItem list"

section \<open>The backends: database, cache, random source\<close>

text \<open>
  A cached value is the JSON of a \<open>ShortCode\<close>, or bytes that do not decode.
  \<open>DeletedAt\<close> carries the tag \<open>json:"-"\<close>: it is not written, and reads back empty.
\<close>

datatype cached = Encoded ShortCode | Undecodable

definition json_Marshal :: "ShortCode \<Rightarrow> cached" where
  "json_Marshal sc = Encoded (sc\<lparr>DeletedAt := None\<rparr>)"

definition json_Unmarshal :: "cached \<Rightarrow> ShortCode option" where
  "json_Unmarshal c = (case c of Encoded sc \<Rightarrow> Some sc | Undecodable \<Rightarrow> None)"

record entry =
  stored :: cached
  expiry :: time

text \<open>The statements the repository sends to its backends.\<close>

datatype stmt =
    CacheGet string
  | CacheSet string
  | CacheDel string
  | InsertShortCode string
  | SelectLiveByCode string
  | SelectByCode string
  | CountByCode string
  | SoftDeleteByCode string
  | SelectAccessStats nat string time
  | InsertAccessStats nat string time
  | IncrementAccessStats nat
  | CountUniqueIPs nat
  | SelectHourly nat
  | SelectLocation nat
  | SelectRecent nat

text \<open>
  The state the operations run on. A table is the list of its rows in the order of their
  primary keys. \<open>issued\<close> records the statements sent so far, oldest first; \<open>failing\<close>
  lists the positions in that sequence at which the backend fails (it answers with an
  error and changes nothing), so that every error branch of the code can be reached.
  \<open>entropy\<close> is what \<open>crypto/rand\<close> will deliver, one value per draw.
\<close>

record world =
  short_codes :: "ShortCode list"
  click_logs :: "ClickLog list"
  access_statistics :: "AccessStatistics list"
  cache :: "(string, entry) mapping"
  issued :: "stmt list"
  failing :: "nat list"
  entropy :: "nat list"

definition send :: "stmt \<Rightarrow> world \<Rightarrow> bool \<times> world" where
  "send q w = (length (issued w) \<in> set (failing w), w\<lparr>issued := issued w @ [q]\<rparr>)"

text \<open>The state after migration: empty tables, an empty cache, nothing sent.\<close>

definition initial_world :: world where
  "initial_world =
     \<lparr>short_codes = [], click_logs = [], access_statistics = [], cache = Mapping.empty,
      issued = [], failing = [], entropy = []\<rparr>"

text \<open>The next value of a table's primary key sequence: above every key in the table.\<close>

definition next_id :: "nat list \<Rightarrow> nat" where
  "next_id ids = Suc (fold max ids 0)"

text \<open>
  Every query on \<open>short_codes\<close> that goes through gorm sees only the rows whose
  \<open>deleted_at\<close> is null (the model has a \<open>gorm.DeletedAt\<close> field), and a delete is the
  update that sets \<open>deleted_at\<close>. The unique index on \<open>code\<close> covers every row.
\<close>

definition live :: "ShortCode \<Rightarrow> bool" where
  "live r = (DeletedAt r = None)"

definition unexpired :: "time \<Rightarrow> ShortCode \<Rightarrow> bool" where
  "unexpired now r = (case ExpiresAt r of None \<Rightarrow> True | Some e \<Rightarrow> now < e)"

subsection \<open>Redis\<close>

definition cacheKey :: "string \<Rightarrow> string" where
  "cacheKey code = ''shortcode:'' @ code"

definition redis_Get :: "world \<Rightarrow> time \<Rightarrow> string \<Rightarrow> cached option \<times> world" where
  "redis_Get w now k =
     (let (failed, w1) = send (CacheGet k) w in
      if failed then (None, w1)
      else case Mapping.lookup (cache w1) k of
             None \<Rightarrow> (None, w1)
           | Some e \<Rightarrow> if now < expiry e then (Some (stored e), w1) else (None, w1))"

definition redis_Set :: "world \<Rightarrow> time \<Rightarrow> string \<Rightarrow> cached \<Rightarrow> duration \<Rightarrow> bool \<times> world" where
  "redis_Set w now k v ttl =
     (let (failed, w1) = send (CacheSet k) w in
      if failed then (False, w1)
      else (True, w1\<lparr>cache := Mapping.update k \<lparr>stored = v, expiry = now + ttl\<rparr> (cache w1)\<rparr>))"

definition redis_Del :: "world \<Rightarrow> string \<Rightarrow> bool \<times> world" where
  "redis_Del w k =
     (let (failed, w1) = send (CacheDel k) w in
      if failed then (False, w1)
      else (True, w1\<lparr>cache := Mapping.delete k (cache w1)\<rparr>))"

section \<open>Repository (internal/repository)\<close>

text \<open>
  \<open>Create\<close>: gorm fills the primary key and the two timestamps of the struct the caller
  hands over (the caller leaves them zero), and the click counter takes its default.
\<close>

definition Create :: "world \<Rightarrow> time \<Rightarrow> ShortCode \<Rightarrow> (error + ShortCode) \<times> world" where
  "Create w now sc =
     (let (failed, w1) = send (InsertShortCode (Code sc)) w in
      if failed then (Inl BackendError, w1)
      else if Code sc \<in> set (map Code (short_codes w1)) then (Inl UniqueViolation, w1)
      else let row = sc\<lparr>ID := next_id (map ID (short_codes w1)),
                         CreatedAt := now, UpdatedAt := now\<rparr>
           in (Inr row, w1\<lparr>short_codes := short_codes w1 @ [row]\<rparr>))"

definition GetByCode :: "world \<Rightarrow> time \<Rightarrow> string \<Rightarrow> (error + ShortCode) \<times> world" where
  "GetByCode w now code =
     (let (cached, w1) = redis_Get w now (cacheKey code) in
      case (case cached of None \<Rightarrow> None | Some c \<Rightarrow> json_Unmarshal c) of
        Some shortCode \<Rightarrow> (Inr shortCode, w1)
      | None \<Rightarrow>
          (let (failed, w2) = send (SelectLiveByCode code) w1 in
           if failed then (Inl BackendError, w2)
           else case find (\<lambda>r. Code r = code \<and> unexpired now r \<and> live r) (short_codes w2) of
                  None \<Rightarrow> (Inl (New ''short code not found''), w2)
                | Some shortCode \<Rightarrow>
                    (Inr shortCode,
                     snd (redis_Set w2 now (cacheKey code) (json_Marshal shortCode) (24 * Hour)))))"

definition GetStats :: "world \<Rightarrow> string \<Rightarrow> (error + ShortCodeStats) \<times> world" where
  "GetStats w code =
     (let (failed, w1) = send (SelectByCode code) w in
      if failed then (Inl BackendError, w1)
      else case find (\<lambda>r. Code r = code \<and> live r) (short_codes w1) of
             None \<Rightarrow> (Inl (New ''short code not found''), w1)
           | Some shortCode \<Rightarrow>
               (Inr \<lparr>st_Code = Code shortCode,
                     st_OriginalURL = OriginalURL shortCode,
                     st_ClickCount = ClickCount shortCode,
                     st_CreatedAt = CreatedAt shortCode,
                     st_LastAccessedAt = LastAccessedAt shortCode\<rparr>, w1))"

definition CodeExists :: "world \<Rightarrow> string \<Rightarrow> (error + bool) \<times> world" where
  "CodeExists w code =
     (let (failed, w1) = send (CountByCode code) w in
      if failed then (Inl BackendError, w1)
      else (Inr (0 < length (filter (\<lambda>r. Code r = code \<and> live r) (short_codes w1))), w1))"

definition InvalidateCache :: "world \<Rightarrow> string \<Rightarrow> bool \<times> world" where
  "InvalidateCache w code = redis_Del w (cacheKey code)"

text \<open>A failed invalidation is logged and the deletion goes on.\<close>

definition Delete :: "world \<Rightarrow> time \<Rightarrow> string \<Rightarrow> (error + unit) \<times> world" where
  "Delete w now code =
     (let w1 = snd (InvalidateCache w code);
          (failed, w2) = send (SoftDeleteByCode code) w1 in
      if failed then (Inl BackendError, w2)
      else if length (filter (\<lambda>r. Code r = code \<and> live r) (short_codes w2)) = 0
      then (Inl (New ''short code not found''), w2)
      else (Inr (),
            w2\<lparr>short_codes :=
                 map (\<lambda>r. if Code r = code \<and> live r then r\<lparr>DeletedAt := Some now\<rparr> else r)
                   (short_codes w2)\<rparr>))"

text \<open>
  \<open>RecordAccessStats\<close>: the caller's struct carries the key and the location. The
  first query selects by \<open>(short_code_id, ip_address, hour_bucket)\<close>; \<open>First\<close> orders
  by primary key. When no row is found the struct is inserted with \<open>AccessCount = 1\<close>.
  On insert gorm fills the fields the struct leaves at their zero value: the primary
  key with the next id of the table, \<open>CreatedAt\<close> and \<open>UpdatedAt\<close> with the clock;
  a field the caller has set is written as it is, and a primary key already in use is
  refused. The table is created from the model by \<open>AutoMigrate\<close>: the field
  \<open>ShortCode ShortCode `gorm:"foreignKey:ShortCodeID"`\<close> gives it the foreign key
  \<open>short_code_id \<rightarrow> short_codes.id\<close>, so the insert of a row whose \<open>short_code_id\<close>
  is the \<open>id\<close> of no row of \<open>short_codes\<close> (soft-deleted rows count: they are still
  in the table) is refused. The association field itself is left at its zero value by
  \<open>RecordClick\<close>, the only caller, and gorm skips a zero association. \<open>UpdateColumn\<close>
  on \<open>Model(&existing)\<close> updates the row with the primary key of the row found and
  touches no other column.
\<close>

definition same_key :: "AccessStatistics \<Rightarrow> AccessStatistics \<Rightarrow> bool" where
  "same_key stats r =
     (as_ShortCodeID r = as_ShortCodeID stats \<and> as_IPAddress r = as_IPAddress stats \<and>
      as_HourBucket r = as_HourBucket stats)"

definition RecordAccessStats :: "world \<Rightarrow> time \<Rightarrow> AccessStatistics \<Rightarrow> (error + unit) \<times> world" where
  "RecordAccessStats w now stats =
     (let (failed, w1) =
            send (SelectAccessStats (as_ShortCodeID stats) (as_IPAddress stats)
                    (as_HourBucket stats)) w in
      if failed then (Inl BackendError, w1)
      else case find (same_key stats) (access_statistics w1) of
             None \<Rightarrow>
               (let (failed, w2) =
                      send (InsertAccessStats (as_ShortCodeID stats) (as_IPAddress stats)
                              (as_HourBucket stats)) w1 in
                if failed then (Inl BackendError, w2)
                else if as_ID stats \<noteq> 0 \<and> as_ID stats \<in> set (map as_ID (access_statistics w2))
                then (Inl UniqueViolation, w2)
                else if as_ShortCodeID stats \<notin> set (map ID (short_codes w2))
                then (Inl ForeignKeyViolation, w2)
                else (Inr (),
                      w2\<lparr>access_statistics := access_statistics w2 @
                           [stats\<lparr>as_ID := (if as_ID stats = 0
                                            then next_id (map as_ID (access_statistics w2))
                                            else as_ID stats),
                                  as_AccessCount := 1,
                                  as_CreatedAt := (if IsZero (as_CreatedAt stats) then now
                                                   else as_CreatedAt stats),
                                  as_UpdatedAt := (if IsZero (as_UpdatedAt stats) then now
                                                   else as_UpdatedAt stats)\<rparr>]\<rparr>))
           | Some existing \<Rightarrow>
               (let (failed, w2) = send (IncrementAccessStats (as_ID existing)) w1 in
                if failed then (Inl BackendError, w2)
                else (Inr (),
                      w2\<lparr>access_statistics :=
                           map (\<lambda>r. if as_ID r = as_ID existing
                                     then r\<lparr>as_AccessCount := as_AccessCount r + 1\<rparr> else r)
                             (access_statistics w2)\<rparr>)))"

subsection \<open>Detailed statistics\<close>

text \<open>
  \<open>time.Duration(n) * time.Hour\<close>: a product of 64-bit integers, which wraps around.
\<close>

definition hours_Duration :: "int \<Rightarrow> duration" where
  "hours_Duration n = sint ((word_of_int n :: 64 word) * word_of_int Hour)"

definition neg_hours_Duration :: "int \<Rightarrow> duration" where
  "neg_hours_Duration n = sint (- (word_of_int n :: 64 word) * word_of_int Hour)"

text \<open>The start of the lookback: set only when \<open>hours > 0\<close>.\<close>

definition startTime :: "int \<Rightarrow> time \<Rightarrow> time option" where
  "startTime hours now = (if 0 < hours then Some (now + neg_hours_Duration hours) else None)"

definition since :: "time option \<Rightarrow> time \<Rightarrow> bool" where
  "since start t = (case start of None \<Rightarrow> True | Some s \<Rightarrow> s \<le> t)"

definition trunc_hour :: "time \<Rightarrow> time" where
  "trunc_hour t = t - t mod Hour"

definition stats_rows :: "nat \<Rightarrow> time option \<Rightarrow> AccessStatistics list \<Rightarrow> AccessStatistics list" where
  "stats_rows cid start rows =
     filter (\<lambda>r. as_ShortCodeID r = cid \<and> since start (as_HourBucket r)) rows"

definition count_distinct_ips :: "AccessStatistics list \<Rightarrow> int" where
  "count_distinct_ips rows = int (length (remdups (map as_IPAddress rows)))"

definition hourly_item :: "AccessStatistics list \<Rightarrow> time \<Rightarrow> HourlyStatItem" where
  "hourly_item rows b =
     \<lparr>hs_HourBucket = b,
      hs_AccessCount = sum_list (map as_AccessCount (filter (\<lambda>r. as_HourBucket r = b) rows)),
      hs_UniqueIPs = count_distinct_ips (filter (\<lambda>r. as_HourBucket r = b) rows)\<rparr>"

definition hourly_query :: "AccessStatistics list \<Rightarrow> HourlyStatItem list" where
  "hourly_query rows =
     take 100 (map (hourly_item rows) (rev (sort (remdups (map as_HourBucket rows)))))"

definition place :: "AccessStatistics \<Rightarrow> string \<times> string \<times> string" where
  "place r = (as_Country r, as_Region r, as_City r)"

definition location_item :: "AccessStatistics list \<Rightarrow> string \<times> string \<times> string \<Rightarrow> LocationStatItem" where
  "location_item rows k =
     (case k of (co, re, ci) \<Rightarrow>
        \<lparr>ls_Country = co, ls_Region = re, ls_City = ci,
         ls_AccessCount = sum_list (map as_AccessCount (filter (\<lambda>r. place r = k) rows))\<rparr>)"

text \<open>
  \<open>ORDER BY access_count DESC\<close>: among groups with equal sums the database is free;
  the model keeps them in the order of their first rows.
\<close>

definition location_query :: "AccessStatistics list \<Rightarrow> LocationStatItem list" where
  "location_query rows =
     take 50 (sort_key (\<lambda>i. - ls_AccessCount i)
                (map (location_item rows) (remdups (map place rows))))"

definition recent_item :: "ClickLog \<Rightarrow> string \<times> string \<times> string \<Rightarrow> RecentAccessItem" where
  "recent_item l k =
     (case k of (co, re, ci) \<Rightarrow>
        \<lparr>ra_IPAddress = cl_IPAddress l, ra_Country = co, ra_Region = re, ra_City = ci,
         ra_AccessTime = cl_CreatedAt l, ra_UserAgent = cl_UserAgent l\<rparr>)"

definition joined :: "AccessStatistics list \<Rightarrow> ClickLog \<Rightarrow> RecentAccessItem list" where
  "joined stats l =
     (case filter (\<lambda>r. as_IPAddress r = cl_IPAddress l \<and>
                        as_ShortCodeID r = cl_ShortCodeID l \<and>
                        as_HourBucket r = trunc_hour (cl_CreatedAt l)) stats of
        [] \<Rightarrow> [recent_item l ('''', '''', '''')]
      | ms \<Rightarrow> map (\<lambda>r. recent_item l (place r)) ms)"

definition recent_query :: "nat \<Rightarrow> time option \<Rightarrow> ClickLog list \<Rightarrow> AccessStatistics list \<Rightarrow> RecentAccessItem list" where
  "recent_query cid start logs stats =
     take 20 (sort_key (\<lambda>i. - ra_AccessTime i)
                (concat (map (joined stats)
                   (filter (\<lambda>l. cl_ShortCodeID l = cid \<and> since start (cl_CreatedAt l)) logs))))"

definition GetDetailedStats :: "world \<Rightarrow> time \<Rightarrow> string \<Rightarrow> int \<Rightarrow> (error + DetailedStats) \<times> world" where
  "GetDetailedStats w now code hours =
     (let (failed, w1) = send (SelectByCode code) w in
      if failed then (Inl BackendError, w1)
      else case find (\<lambda>r. Code r = code \<and> live r) (short_codes w1) of
        None \<Rightarrow> (Inl (New ''short code not found''), w1)
      | Some shortCode \<Rightarrow>
         (let start = startTime hours now;
              rows = stats_rows (ID shortCode) start (access_statistics w1);
              (failed, w2) = send (CountUniqueIPs (ID shortCode)) w1 in
          if failed then (Inl BackendError, w2) else
          (let (failed, w3) = send (SelectHourly (ID shortCode)) w2 in
           if failed then (Inl BackendError, w3) else
           (let (failed, w4) = send (SelectLocation (ID shortCode)) w3 in
            if failed then (Inl BackendError, w4) else
            (let (failed, w5) = send (SelectRecent (ID shortCode)) w4 in
             if failed then (Inl BackendError, w5) else
             (Inr \<lparr>ds_Code = Code shortCode,
                   ds_OriginalURL = OriginalURL shortCode,
                   ds_TotalClicks = ClickCount shortCode,
                   ds_UniqueIPs = count_distinct_ips rows,
                   ds_CreatedAt = CreatedAt shortCode,
                   ds_LastAccessedAt = LastAccessedAt shortCode,
                   ds_HourlyStats = hourly_query rows,
                   ds_LocationStats = location_query rows,
                   ds_RecentAccesses =
                     recent_query (ID shortCode) start (click_logs w1) (access_statistics w1)\<rparr>,
              w5))))))"

section \<open>Service (internal/service)\<close>

definition defaultCodeLength :: nat where
  "defaultCodeLength = 6"

definition charset :: string where
  "charset = ''abcdefghijklmnopqrstuvwxyzABCDEFGHIJKLMNOPQRSTUVWXYZ0123456789''"

definition maxRetries :: nat where
  "maxRetries = 5"

text \<open>
  \<open>rand.Int(rand.Reader, max)\<close> answers a value below \<open>max\<close>, or an error when the
  source delivers nothing.
\<close>

definition rand_Int :: "world \<Rightarrow> nat \<Rightarrow> nat option \<times> world" where
  "rand_Int w bound =
     (case entropy w of
        [] \<Rightarrow> (None, w)
      | r # rs \<Rightarrow> (Some (r mod bound), w\<lparr>entropy := rs\<rparr>))"

text \<open>
  \<open>generateRandomCode\<close> drops the error of \<open>rand.Int\<close> and reads the index it returned:
  with no index there, that read panics (\<open>None\<close>).
\<close>

fun generateRandomCode :: "nat \<Rightarrow> world \<Rightarrow> string option \<times> world" where
  "generateRandomCode 0 w = (Some [], w)"
| "generateRandomCode (Suc n) w =
     (case rand_Int w (length charset) of
        (None, w1) \<Rightarrow> (None, w1)
      | (Some randomIndex, w1) \<Rightarrow>
          (case generateRandomCode n w1 of
             (None, w2) \<Rightarrow> (None, w2)
           | (Some code, w2) \<Rightarrow> (Some (charset ! randomIndex # code), w2)))"

text \<open>The loop of \<open>generateUniqueCode\<close>, by the number of rounds still to run.\<close>

fun generateUniqueCode_rounds :: "nat \<Rightarrow> world \<Rightarrow> (error + string) \<times> world" where
  "generateUniqueCode_rounds 0 w =
     (Inl (New ''failed to generate unique code after max retries''), w)"
| "generateUniqueCode_rounds (Suc n) w =
     (case generateRandomCode defaultCodeLength w of
        (None, w1) \<Rightarrow> (Inl Panic, w1)
      | (Some code, w1) \<Rightarrow>
          (case CodeExists w1 code of
             (Inl err, w2) \<Rightarrow> (Inl err, w2)
           | (Inr exists, w2) \<Rightarrow>
               if \<not> exists then (Inr code, w2) else generateUniqueCode_rounds n w2))"

definition generateUniqueCode :: "world \<Rightarrow> (error + string) \<times> world" where
  "generateUniqueCode w = generateUniqueCode_rounds maxRetries w"

text \<open>
  \<open>isValidURL\<close> rests on \<open>url.Parse\<close> of the standard library, which is taken as the
  parameter \<open>parse\<close>: it answers the parsed URL (of which only the scheme is read), or
  nothing when it reports an error.
\<close>

record URL_parts =
  Scheme :: string

definition isValidURL :: "(string \<Rightarrow> URL_parts option) \<Rightarrow> string \<Rightarrow> bool" where
  "isValidURL parse rawURL =
     (case parse rawURL of
        None \<Rightarrow> False
      | Some u \<Rightarrow> Scheme u = ''http'' \<or> Scheme u = ''https'')"

text \<open>The regular expression \<open>^[a-zA-Z0-9]{4,50}$\<close>.\<close>

definition alnum :: "char \<Rightarrow> bool" where
  "alnum c =
     (let n = (of_char c :: nat) in
      (97 \<le> n \<and> n \<le> 122) \<or> (65 \<le> n \<and> n \<le> 90) \<or> (48 \<le> n \<and> n \<le> 57))"

definition isValidCode :: "string \<Rightarrow> bool" where
  "isValidCode code = (4 \<le> length code \<and> length code \<le> 50 \<and> list_all alnum code)"

text \<open>The choice of the code in \<open>CreateShortCode\<close>: the custom one, or a generated one.\<close>

definition chooseCode :: "world \<Rightarrow> CreateShortCodeRequest \<Rightarrow> (error + string) \<times> world" where
  "chooseCode w req =
     (if CustomCode req \<noteq> '''' then
        (if \<not> isValidCode (CustomCode req) then (Inl ErrInvalidCode, w)
         else case CodeExists w (CustomCode req) of
                (Inl err, w1) \<Rightarrow> (Inl (Wrap ''failed to check code existence'' err), w1)
              | (Inr exists, w1) \<Rightarrow>
                  if exists then (Inl ErrCodeExists, w1) else (Inr (CustomCode req), w1))
      else
        (case generateUniqueCode w of
           (Inl err, w1) \<Rightarrow>
             (Inl (if err = Panic then Panic else Wrap ''failed to generate unique code'' err), w1)
         | (Inr code, w1) \<Rightarrow> (Inr code, w1)))"

definition expiresAt :: "time \<Rightarrow> CreateShortCodeRequest \<Rightarrow> time option" where
  "expiresAt now req =
     (if 0 < ExpiresIn req then Some (now + hours_Duration (ExpiresIn req)) else None)"

definition CreateShortCode ::
  "(string \<Rightarrow> URL_parts option) \<Rightarrow> string \<Rightarrow> world \<Rightarrow> time \<Rightarrow> CreateShortCodeRequest \<Rightarrow>
   (error + CreateShortCodeResponse) \<times> world" where
  "CreateShortCode parse baseURL w now req =
     (if \<not> isValidURL parse (URL req) then (Inl ErrInvalidURL, w)
      else case chooseCode w req of
        (Inl err, w1) \<Rightarrow> (Inl err, w1)
      | (Inr code, w1) \<Rightarrow>
          (case Create w1 now
                  \<lparr>ID = 0, Code = code, OriginalURL = URL req, CreatedAt = 0, UpdatedAt = 0,
                   ExpiresAt = expiresAt now req, ClickCount = 0, LastAccessedAt = None,
                   DeletedAt = None\<rparr> of
             (Inl err, w2) \<Rightarrow> (Inl (Wrap ''failed to create short code'' err), w2)
           | (Inr shortCode, w2) \<Rightarrow>
               (Inr \<lparr>resp_ShortCode = code,
                     resp_ShortURL = baseURL @ ''/'' @ code,
                     resp_OriginalURL = URL req,
                     resp_CreatedAt = CreatedAt shortCode,
                     resp_ExpiresAt = expiresAt now req\<rparr>, w2)))"

definition GetOriginalURL :: "world \<Rightarrow> time \<Rightarrow> string \<Rightarrow> (error + string) \<times> world" where
  "GetOriginalURL w now code =
     (case GetByCode w now code of
        (Inl err, w1) \<Rightarrow> (Inl ErrCodeNotFound, w1)
      | (Inr shortCode, w1) \<Rightarrow> (Inr (OriginalURL shortCode), w1))"

definition svc_GetStats :: "world \<Rightarrow> string \<Rightarrow> (error + ShortCodeStats) \<times> world" where
  "svc_GetStats w code =
     (case GetStats w code of
        (Inl err, w1) \<Rightarrow> (Inl ErrCodeNotFound, w1)
      | (Inr stats, w1) \<Rightarrow> (Inr stats, w1))"

definition svc_GetDetailedStats ::
  "world \<Rightarrow> time \<Rightarrow> string \<Rightarrow> int \<Rightarrow> (error + DetailedStats) \<times> world" where
  "svc_GetDetailedStats w now code hours =
     (case GetDetailedStats w now code hours of
        (Inl err, w1) \<Rightarrow> (Inl ErrCodeNotFound, w1)
      | (Inr stats, w1) \<Rightarrow> (Inr stats, w1))"

definition DeleteShortCode :: "world \<Rightarrow> time \<Rightarrow> string \<Rightarrow> (error + unit) \<times> world" where
  "DeleteShortCode w now code = Delete w now code"

section \<open>Handlers (internal/api)\<close>

text \<open>
  The status and the error tag a handler answers with, from the result of the service.
  A panic never reaches the handler's switch: the recovery middleware answers 500.
\<close>

definition Handler_CreateShortCode :: "error + CreateShortCodeResponse \<Rightarrow> nat \<times> string" where
  "Handler_CreateShortCode r =
     (case r of
        Inr resp \<Rightarrow> (201, '''')
      | Inl err \<Rightarrow>
          if err = Panic then (500, ''internal_server_error'')
          else if errors_Is err ErrInvalidURL then (400, ''invalid_url'')
          else if errors_Is err ErrCodeExists then (409, ''code_exists'')
          else if errors_Is err ErrInvalidCode then (400, ''invalid_code'')
          else (500, ''internal_error''))"

definition Handler_GetDetailedStats :: "error + DetailedStats \<Rightarrow> nat \<times> string" where
  "Handler_GetDetailedStats r =
     (case r of
        Inr stats \<Rightarrow> (200, '''')
      | Inl err \<Rightarrow> (404, ''not_found''))"

text \<open>
  What \<open>url.Parse\<close> does up to the scheme, for the examples: the fragment is cut off, a
  control byte is an error, the scheme is the leading run of letters, digits, \<open>+\<close>, \<open>-\<close>
  and \<open>.\<close> (starting with a letter) before the first colon, in lower case. The errors
  \<open>url.Parse\<close> reports further on (authority, escapes) are not part of it.
\<close>

definition letter :: "char \<Rightarrow> bool" where
  "letter c =
     (let n = (of_char c :: nat) in (97 \<le> n \<and> n \<le> 122) \<or> (65 \<le> n \<and> n \<le> 90))"

definition toLower :: "char \<Rightarrow> char" where
  "toLower c =
     (let n = (of_char c :: nat) in if 65 \<le> n \<and> n \<le> 90 then char_of (n + 32) else c)"

fun getScheme :: "nat \<Rightarrow> string \<Rightarrow> string \<Rightarrow> error + string" where
  "getScheme i [] rawURL = Inr ''''"
| "getScheme i (c # cs) rawURL =
     (if letter c then getScheme (Suc i) cs rawURL
      else if alnum c \<or> c = CHR ''+'' \<or> c = CHR ''-'' \<or> c = CHR ''.'' then
        (if i = 0 then Inr '''' else getScheme (Suc i) cs rawURL)
      else if c = CHR '':'' then
        (if i = 0 then Inl (New ''missing protocol scheme'') else Inr (take i rawURL))
      else Inr '''')"

definition url_Parse :: "string \<Rightarrow> URL_parts option" where
  "url_Parse rawURL =
     (let u = takeWhile (\<lambda>c. c \<noteq> CHR ''#'') rawURL in
      if list_ex (\<lambda>c. (of_char c :: nat) < 32 \<or> (of_char c :: nat) = 127) u then None
      else if u = ''*'' then Some \<lparr>Scheme = ''''\<rparr>
      else case getScheme 0 u u of
             Inl err \<Rightarrow> None
           | Inr scheme \<Rightarrow> Some \<lparr>Scheme = map toLower scheme\<rparr>)"

section \<open>Keys and candidates\<close>

text \<open>The key of a row of \<open>access_statistics\<close>: code, address and hour bucket.\<close>

definition stat_key :: "AccessStatistics \<Rightarrow> nat \<times> string \<times> time" where
  "stat_key r = (as_ShortCodeID r, as_IPAddress r, as_HourBucket r)"

text \<open>
  The candidate that round \<open>i\<close> (from 0) of \<open>generateUniqueCode\<close> draws when the rounds
  before it found their candidates taken: six draws each.
\<close>

definition candidate :: "world \<Rightarrow> nat \<Rightarrow> string" where
  "candidate w i =
     map (\<lambda>r. charset ! (r mod length charset))
       (take defaultCodeLength (drop (defaultCodeLength * i) (entropy w)))"

section \<open>Example states\<close>

text \<open>
  The request of the end-to-end example, the state after creating it at instant 0 on the
  initial state, and the state after deleting the code again.
\<close>

definition example_request :: CreateShortCodeRequest where
  "example_request = \<lparr>URL = ''https://example.com/a'', CustomCode = ''test1'', ExpiresIn = 1\<rparr>"

definition created_world :: world where
  "created_world =
     snd (CreateShortCode url_Parse ''http://localhost:8080'' initial_world 0 example_request)"

definition deleted_world :: world where
  "deleted_world = snd (DeleteShortCode created_world 5 ''test1'')"

definition example_row :: ShortCode where
  "example_row =
     \<lparr>ID = 1, Code = ''test1'', OriginalURL = ''https://example.com/a'', CreatedAt = 0,
      UpdatedAt = 0, ExpiresAt = Some Hour, ClickCount = 0, LastAccessedAt = None,
      DeletedAt = None\<rparr>"

definition example_stats :: AccessStatistics where
  "example_stats =
     \<lparr>as_ID = 0, as_ShortCodeID = 1, as_IPAddress = ''203.0.113.7'', as_Country = ''Unknown'',
      as_Region = ''Unknown'', as_City = ''Unknown'', as_HourBucket = 0, as_AccessCount = 0,
      as_CreatedAt = 0, as_UpdatedAt = 0\<rparr>"

definition counted_world :: world where
  "counted_world = snd (RecordAccessStats created_world 5 example_stats)"

text \<open>
  A request without a custom code; a state in which the five codes \<open>aaaaaa\<close>, ...,
  \<open>eeeeee\<close> are taken and the random source delivers these five codes, one after the
  other; and the same state with a source whose fifth code is \<open>ffffff\<close>.
\<close>

definition generated_request :: CreateShortCodeRequest where
  "generated_request = \<lparr>URL = ''https://example.com/a'', CustomCode = '''', ExpiresIn = 0\<rparr>"

definition taken_world :: world where
  "taken_world =
     initial_world\<lparr>short_codes :=
                      [example_row\<lparr>ID := 1, Code := ''aaaaaa''\<rparr>,
                       example_row\<lparr>ID := 2, Code := ''bbbbbb''\<rparr>,
                       example_row\<lparr>ID := 3, Code := ''cccccc''\<rparr>,
                       example_row\<lparr>ID := 4, Code := ''dddddd''\<rparr>,
                       example_row\<lparr>ID := 5, Code := ''eeeeee''\<rparr>],
                    entropy := [0, 0, 0, 0, 0, 0, 1, 1, 1, 1, 1, 1, 2, 2, 2, 2, 2, 2,
                                3, 3, 3, 3, 3, 3, 4, 4, 4, 4, 4, 4]\<rparr>"

definition retried_world :: world where
  "retried_world =
     taken_world\<lparr>entropy := [0, 0, 0, 0, 0, 0, 1, 1, 1, 1, 1, 1, 2, 2, 2, 2, 2, 2,
                              3, 3, 3, 3, 3, 3, 5, 5, 5, 5, 5, 5]\<rparr>"

section \<open>The lookback of the detailed statistics (internal/api)\<close>



text \<open>
  A \<open>float64\<close> is a rational number here, and every operation of \<open>float64\<close> is the
  exact operation followed by rounding to the nearest number with a significand of 53
  bits, ties to the even significand. \<open>ilog2 x\<close> is the exponent of \<open>x > 0\<close>, the
  integer \<open>e\<close> with \<open>2\<^sup>e \<le> x < 2\<^sup>e\<^sup>+\<^sup>1\<close>, from the bit lengths of numerator and
  denominator. The range of the exponent is not bounded: the values of \<open>Hours\<close> are
  zero or lie between \<open>2\<^sup>-\<^sup>4\<^sup>2\<close> and \<open>2\<^sup>2\<^sup>2\<close> in magnitude, far from overflow and from
  the subnormal numbers.
\<close>

definition ilog2 :: "rat \<Rightarrow> int" where
  "ilog2 x =
     (let (p, q) = quotient_of x; e = bitlen p - bitlen q
      in if 2 powi e \<le> x then e else e - 1)"

definition round_half_even :: "rat \<Rightarrow> int" where
  "round_half_even x =
     (let f = \<lfloor>x\<rfloor>; d = x - of_int f
      in if d < 1 / 2 then f else if 1 / 2 < d then f + 1 else if even f then f else f + 1)"

definition float64_pos :: "rat \<Rightarrow> rat" where
  "float64_pos x = (let u = 2 powi (ilog2 x - 52) in of_int (round_half_even (x / u)) * u)"

definition float64 :: "rat \<Rightarrow> rat" where
  "float64 x = (if x = 0 then 0 else if 0 < x then float64_pos x else - float64_pos (- x))"




section \<open>RateLimiter: the fixed window\<close>

lemma Allow_rate [simp]: "rate (snd (Allow rl t ip)) = rate rl"
  by (simp add: Allow_def Let_def split: option.splits)

lemma Allow_window [simp]: "window (snd (Allow rl t ip)) = window rl"
  by (simp add: Allow_def Let_def split: option.splits)

lemma Allow_no_window:
  "no_window rl ip t \<Longrightarrow>
   Allow rl t ip =
     (True, rl\<lparr>visitors :=
       Mapping.update ip \<lparr>requests = 1, resetTime = t + window rl\<rparr> (visitors rl)\<rparr>)"
  by (auto simp: Allow_def no_window_def Let_def split: option.splits)

lemma Allow_seq_within:
  "Mapping.lookup (visitors rl) ip = Some v \<Longrightarrow> requests v = k \<Longrightarrow> k \<le> rate rl \<Longrightarrow>
   \<forall>t \<in> set ts. t \<le> resetTime v \<Longrightarrow>
   fst (Allow_seq rl ip ts) =
     replicate (min (length ts) (nat (rate rl - k))) True @
     replicate (length ts - nat (rate rl - k)) False \<and>
   (\<exists>v'. Mapping.lookup (visitors (snd (Allow_seq rl ip ts))) ip = Some v' \<and>
         resetTime v' = resetTime v \<and>
         requests v' = min (rate rl) (k + int (length ts))) \<and>
   rate (snd (Allow_seq rl ip ts)) = rate rl \<and>
   window (snd (Allow_seq rl ip ts)) = window rl"
proof (induction ts arbitrary: rl v k)
  case Nil
  then show ?case by simp
next
  case (Cons t ts)
  have le: "\<not> After t (resetTime v)"
    using Cons.prems(4) by (simp add: After_def)
  show ?case
  proof (cases "k < rate rl")
    case True
    let ?v = "v\<lparr>requests := requests v + 1\<rparr>"
    let ?rl = "rl\<lparr>visitors := Mapping.update ip ?v (visitors rl)\<rparr>"
    have step: "Allow rl t ip = (True, ?rl)"
      using Cons.prems(1,2) le True by (simp add: Allow_def Let_def)
    have ih: "fst (Allow_seq ?rl ip ts) =
        replicate (min (length ts) (nat (rate ?rl - (k + 1)))) True @
        replicate (length ts - nat (rate ?rl - (k + 1))) False \<and>
      (\<exists>v'. Mapping.lookup (visitors (snd (Allow_seq ?rl ip ts))) ip = Some v' \<and>
         resetTime v' = resetTime ?v \<and>
         requests v' = min (rate ?rl) ((k + 1) + int (length ts))) \<and>
      rate (snd (Allow_seq ?rl ip ts)) = rate ?rl \<and>
      window (snd (Allow_seq ?rl ip ts)) = window ?rl"
      using Cons.prems(2,4) True
      by (intro Cons.IH [of ?rl ?v "k + 1"]) simp_all
    have n: "nat (rate rl - k) = Suc (nat (rate rl - (k + 1)))"
      using True by simp
    from ih obtain v' where
      a: "fst (Allow_seq ?rl ip ts) =
            replicate (min (length ts) (nat (rate rl - (k + 1)))) True @
            replicate (length ts - nat (rate rl - (k + 1))) False" and
      b: "Mapping.lookup (visitors (snd (Allow_seq ?rl ip ts))) ip = Some v'" and
      c: "resetTime v' = resetTime v" and
      d: "requests v' = min (rate rl) (k + 1 + int (length ts))" and
      e: "rate (snd (Allow_seq ?rl ip ts)) = rate rl" and
      f: "window (snd (Allow_seq ?rl ip ts)) = window rl"
      by auto
    have seq: "Allow_seq rl ip (t # ts) =
        (True # fst (Allow_seq ?rl ip ts), snd (Allow_seq ?rl ip ts))"
      using step by (simp add: split_beta)
    have d': "requests v' = min (rate rl) (k + int (length (t # ts)))"
      using d by simp
    have a': "fst (Allow_seq rl ip (t # ts)) =
        replicate (min (length (t # ts)) (nat (rate rl - k))) True @
        replicate (length (t # ts) - nat (rate rl - k)) False"
      unfolding seq using a n by simp
    show ?thesis
      using a' b c d' e f unfolding seq by (intro conjI exI [of _ v']) simp_all
  next
    case False
    then have eq: "k = rate rl"
      using Cons.prems(3) by simp
    have step: "Allow rl t ip = (False, rl)"
      using Cons.prems(1,2) le eq by (simp add: Allow_def Let_def)
    have ih: "fst (Allow_seq rl ip ts) =
        replicate (min (length ts) (nat (rate rl - k))) True @
        replicate (length ts - nat (rate rl - k)) False \<and>
      (\<exists>v'. Mapping.lookup (visitors (snd (Allow_seq rl ip ts))) ip = Some v' \<and>
         resetTime v' = resetTime v \<and>
         requests v' = min (rate rl) (k + int (length ts))) \<and>
      rate (snd (Allow_seq rl ip ts)) = rate rl \<and>
      window (snd (Allow_seq rl ip ts)) = window rl"
      using Cons.prems by (intro Cons.IH [of rl v k]) simp_all
    from ih obtain v' where
      a: "fst (Allow_seq rl ip ts) =
            replicate (min (length ts) (nat (rate rl - k))) True @
            replicate (length ts - nat (rate rl - k)) False" and
      b: "Mapping.lookup (visitors (snd (Allow_seq rl ip ts))) ip = Some v'" and
      c: "resetTime v' = resetTime v" and
      d: "requests v' = min (rate rl) (k + int (length ts))" and
      e: "rate (snd (Allow_seq rl ip ts)) = rate rl" and
      f: "window (snd (Allow_seq rl ip ts)) = window rl"
      by auto
    have seq: "Allow_seq rl ip (t # ts) =
        (False # fst (Allow_seq rl ip ts), snd (Allow_seq rl ip ts))"
      using step by (simp add: split_beta)
    have d': "requests v' = min (rate rl) (k + int (length (t # ts)))"
      using d eq by simp
    have a': "fst (Allow_seq rl ip (t # ts)) =
        replicate (min (length (t # ts)) (nat (rate rl - k))) True @
        replicate (length (t # ts) - nat (rate rl - k)) False"
      unfolding seq using a eq by simp
    show ?thesis
      using a' b c d' e f unfolding seq by (intro conjI exI [of _ v']) simp_all
  qed
qed

text \<open>
  C5 (fixed window). With a rate of at least one: from a state where the client has no
  window at instant \<open>t\<close>, the call at \<open>t\<close> and the calls that follow it within the
  window (not after \<open>t + window\<close>) are admitted up to \<open>rate\<close> calls in all, the next
  one is rejected; a call after the window has elapsed is admitted and starts a fresh
  window with count 1.
\<close>

theorem Allow_fixed_window:
  assumes "1 \<le> rate rl"
    and "no_window rl ip t"
    and "length ts = nat (rate rl)"
    and "\<forall>u \<in> set ts. u \<le> t + window rl"
    and "t + window rl < late"
  shows "fst (Allow_seq rl ip (t # ts)) = replicate (nat (rate rl)) True @ [False] \<and>
         fst (Allow (snd (Allow_seq rl ip (t # ts))) late ip) = True \<and>
         Mapping.lookup (visitors (snd (Allow (snd (Allow_seq rl ip (t # ts))) late ip))) ip =
           Some \<lparr>requests = 1, resetTime = late + window rl\<rparr>"
proof -
  let ?v = "\<lparr>requests = 1, resetTime = t + window rl\<rparr>"
  let ?rl = "rl\<lparr>visitors := Mapping.update ip ?v (visitors rl)\<rparr>"
  have first: "Allow rl t ip = (True, ?rl)"
    using assms(2) by (rule Allow_no_window)
  have rest: "fst (Allow_seq ?rl ip ts) =
        replicate (min (length ts) (nat (rate ?rl - 1))) True @
        replicate (length ts - nat (rate ?rl - 1)) False \<and>
      (\<exists>v'. Mapping.lookup (visitors (snd (Allow_seq ?rl ip ts))) ip = Some v' \<and>
         resetTime v' = resetTime ?v \<and>
         requests v' = min (rate ?rl) (1 + int (length ts))) \<and>
      rate (snd (Allow_seq ?rl ip ts)) = rate ?rl \<and>
      window (snd (Allow_seq ?rl ip ts)) = window ?rl"
    using assms(1,4) by (intro Allow_seq_within [of ?rl ip ?v 1 ts]) simp_all
  then obtain v' where
    a: "fst (Allow_seq ?rl ip ts) =
          replicate (min (length ts) (nat (rate rl - 1))) True @
          replicate (length ts - nat (rate rl - 1)) False" and
    b: "Mapping.lookup (visitors (snd (Allow_seq ?rl ip ts))) ip = Some v'" and
    c: "resetTime v' = t + window rl" and
    f: "window (snd (Allow_seq ?rl ip ts)) = window rl"
    by auto
  have seq: "Allow_seq rl ip (t # ts) =
      (True # fst (Allow_seq ?rl ip ts), snd (Allow_seq ?rl ip ts))"
    using first by (simp add: split_beta)
  have n: "nat (rate rl) = Suc (nat (rate rl - 1))"
    using assms(1) by simp
  have len: "min (length ts) (nat (rate rl - 1)) = nat (rate rl - 1)"
    "length ts - nat (rate rl - 1) = 1"
    using assms(1,3) by simp_all
  have answers: "fst (Allow_seq rl ip (t # ts)) = replicate (nat (rate rl)) True @ [False]"
    unfolding seq using a len n by simp
  have elapsed: "After late (resetTime v')"
    using c assms(5) by (simp add: After_def)
  have late: "Allow (snd (Allow_seq ?rl ip ts)) late ip =
      (True, (snd (Allow_seq ?rl ip ts))\<lparr>visitors :=
         Mapping.update ip \<lparr>requests = 1, resetTime = late + window rl\<rparr>
           (visitors (snd (Allow_seq ?rl ip ts)))\<rparr>)"
    using b elapsed f by (simp add: Allow_def Let_def)
  show ?thesis
    using answers late unfolding seq by simp
qed

theorem Allow_fixed_window_witness:
  "1 \<le> rate (NewRateLimiter 2 Minute) \<and>
   no_window (NewRateLimiter 2 Minute) ''203.0.113.7'' 0 \<and>
   length [1, Minute] = nat (rate (NewRateLimiter 2 Minute)) \<and>
   1 \<le> 0 + window (NewRateLimiter 2 Minute) \<and>
   Minute \<le> 0 + window (NewRateLimiter 2 Minute) \<and>
   0 + window (NewRateLimiter 2 Minute) < Minute + 1 \<and>
   fst (Allow_seq (NewRateLimiter 2 Minute) ''203.0.113.7'' [0, 1, Minute]) =
     [True, True, False] \<and>
   fst (Allow (snd (Allow_seq (NewRateLimiter 2 Minute) ''203.0.113.7'' [0, 1, Minute]))
          (Minute + 1) ''203.0.113.7'') = True \<and>
   Mapping.lookup (visitors (snd (Allow (snd (Allow_seq (NewRateLimiter 2 Minute)
       ''203.0.113.7'' [0, 1, Minute])) (Minute + 1) ''203.0.113.7''))) ''203.0.113.7'' =
     Some \<lparr>requests = 1, resetTime = Minute + 1 + Minute\<rparr>"
proof -
  have h1: "1 \<le> rate (NewRateLimiter 2 Minute)"
    by (simp add: NewRateLimiter_def)
  have h2: "no_window (NewRateLimiter 2 Minute) ''203.0.113.7'' 0"
    by (simp add: NewRateLimiter_def no_window_def)
  have h3: "length [1, Minute] = nat (rate (NewRateLimiter 2 Minute))"
    by (simp add: NewRateLimiter_def)
  have h4: "\<forall>u \<in> set [1, Minute]. u \<le> 0 + window (NewRateLimiter 2 Minute)"
    by (simp add: NewRateLimiter_def Minute_def)
  have h5: "0 + window (NewRateLimiter 2 Minute) < Minute + 1"
    by (simp add: NewRateLimiter_def)
  have w: "window (NewRateLimiter 2 Minute) = Minute" "nat (rate (NewRateLimiter 2 Minute)) = 2"
    by (simp_all add: NewRateLimiter_def)
  show ?thesis
    using Allow_fixed_window [OF h1 h2 h3 h4 h5] h1 h2 h3 h4 h5
    by (simp add: w numeral_2_eq_2)
qed

text \<open>
  With a rate of zero the first call of a client is still admitted: the branch that starts
  a window never compares with the rate.
\<close>

theorem Allow_rate_zero_counterexample:
  "no_window (NewRateLimiter 0 Minute) ''203.0.113.7'' 0 \<and>
   fst (Allow_seq (NewRateLimiter 0 Minute) ''203.0.113.7'' [0]) = [True]"
  by (simp add: NewRateLimiter_def no_window_def Allow_def)

text \<open>The sweep removes elapsed windows only, so it never changes an answer of \<open>Allow\<close>.\<close>

lemma Allow_after_cleanup:
  "now \<le> later \<Longrightarrow> fst (Allow (cleanupVisitors rl now) later ip) = fst (Allow rl later ip)"
  by (auto simp: Allow_def cleanupVisitors_def Let_def After_def Mapping.lookup_filter
      split: option.splits)

section \<open>Statements and their failures\<close>

lemma send_answered:
  "length (issued w) \<notin> set (failing w) \<Longrightarrow>
   send q w = (False, w\<lparr>issued := issued w @ [q]\<rparr>)"
  by (simp add: send_def)

lemma send_never_failing:
  "failing w = [] \<Longrightarrow> send q w = (False, w\<lparr>issued := issued w @ [q]\<rparr>)"
  by (simp add: send_def)

lemma valid_example: "isValidURL url_Parse ''https://example.com/a''"
  by (simp add: isValidURL_def url_Parse_def letter_def alnum_def toLower_def)

lemma invalid_example: "\<not> isValidURL url_Parse ''ftp://example.com/a''"
  by (simp add: isValidURL_def url_Parse_def letter_def alnum_def toLower_def)

section \<open>CreateShortCode: validation comes before storage\<close>

text \<open>
  C8 (invalid custom code). A request whose custom code is non-empty and does not match
  \<open>^[a-zA-Z0-9]{4,50}$\<close> is rejected with the state untouched, no statement sent: with
  \<open>ErrInvalidCode\<close> when its URL is valid, and with \<open>ErrInvalidURL\<close> when it is not,
  since the URL is checked first.
\<close>

theorem CreateShortCode_invalid_code:
  assumes "CustomCode req \<noteq> ''''" and "\<not> isValidCode (CustomCode req)"
  shows "CreateShortCode parse baseURL w now req =
           (Inl (if isValidURL parse (URL req) then ErrInvalidCode else ErrInvalidURL), w)"
  using assms by (simp add: CreateShortCode_def chooseCode_def)

theorem CreateShortCode_invalid_code_witness:
  "CustomCode \<lparr>URL = ''https://example.com/a'', CustomCode = ''ab!'', ExpiresIn = 0\<rparr> \<noteq> '''' \<and>
   \<not> isValidCode
       (CustomCode \<lparr>URL = ''https://example.com/a'', CustomCode = ''ab!'', ExpiresIn = 0\<rparr>) \<and>
   CreateShortCode url_Parse ''http://localhost:8080'' initial_world 0
       \<lparr>URL = ''https://example.com/a'', CustomCode = ''ab!'', ExpiresIn = 0\<rparr> =
     (Inl ErrInvalidCode, initial_world)"
proof -
  have h1: "CustomCode \<lparr>URL = ''https://example.com/a'', CustomCode = ''ab!'', ExpiresIn = 0\<rparr>
      \<noteq> ''''"
    by simp
  have h2: "\<not> isValidCode
      (CustomCode \<lparr>URL = ''https://example.com/a'', CustomCode = ''ab!'', ExpiresIn = 0\<rparr>)"
    by (simp add: isValidCode_def)
  show ?thesis
    using CreateShortCode_invalid_code
        [OF h1 h2, of url_Parse "''http://localhost:8080''" initial_world 0]
      h1 h2 valid_example by simp
qed

text \<open>
  With a URL that is not valid, the same request fails with \<open>ErrInvalidURL\<close>, not with
  \<open>ErrInvalidCode\<close>.
\<close>

theorem CreateShortCode_invalid_url_first_counterexample:
  "CustomCode \<lparr>URL = ''ftp://example.com/a'', CustomCode = ''ab!'', ExpiresIn = 0\<rparr> \<noteq> '''' \<and>
   \<not> isValidCode
       (CustomCode \<lparr>URL = ''ftp://example.com/a'', CustomCode = ''ab!'', ExpiresIn = 0\<rparr>) \<and>
   fst (CreateShortCode url_Parse ''http://localhost:8080'' initial_world 0
          \<lparr>URL = ''ftp://example.com/a'', CustomCode = ''ab!'', ExpiresIn = 0\<rparr>) =
     Inl ErrInvalidURL"
  using invalid_example by (simp add: CreateShortCode_def isValidCode_def)

section \<open>The durable write and the unique index on the code\<close>


lemma CodeExists_never_failing:
  "failing w = [] \<Longrightarrow>
   CodeExists w code =
     (Inr (filter (\<lambda>r. Code r = code \<and> live r) (short_codes w) \<noteq> []),
      w\<lparr>issued := issued w @ [CountByCode code]\<rparr>)"
  by (simp add: CodeExists_def send_never_failing)

lemma Create_never_failing:
  "failing w = [] \<Longrightarrow>
   Create w now sc =
     (if Code sc \<in> set (map Code (short_codes w))
      then (Inl UniqueViolation, w\<lparr>issued := issued w @ [InsertShortCode (Code sc)]\<rparr>)
      else (Inr (sc\<lparr>ID := next_id (map ID (short_codes w)), CreatedAt := now, UpdatedAt := now\<rparr>),
            w\<lparr>issued := issued w @ [InsertShortCode (Code sc)],
              short_codes := short_codes w @
                [sc\<lparr>ID := next_id (map ID (short_codes w)), CreatedAt := now, UpdatedAt := now\<rparr>]\<rparr>))"
  by (simp add: Create_def send_never_failing Let_def)

lemma Delete_never_failing:
  "failing w = [] \<Longrightarrow>
   Delete w now code =
     (if filter (\<lambda>r. Code r = code \<and> live r) (short_codes w) = []
      then (Inl (New ''short code not found''),
            w\<lparr>issued := issued w @ [CacheDel (cacheKey code), SoftDeleteByCode code],
              cache := Mapping.delete (cacheKey code) (cache w)\<rparr>)
      else (Inr (),
            w\<lparr>issued := issued w @ [CacheDel (cacheKey code), SoftDeleteByCode code],
              cache := Mapping.delete (cacheKey code) (cache w),
              short_codes :=
                map (\<lambda>r. if Code r = code \<and> live r then r\<lparr>DeletedAt := Some now\<rparr> else r)
                  (short_codes w)\<rparr>))"
  by (simp add: Delete_def InvalidateCache_def redis_Del_def send_never_failing Let_def)

lemma soft_deleted_not_live:
  "filter (\<lambda>r. Code r = code \<and> live r)
     (map (\<lambda>r. if Code r = code \<and> live r then r\<lparr>DeletedAt := Some now\<rparr> else r) rows) = []"
  by (induction rows) (simp_all add: live_def)

lemma soft_deleted_codes:
  "map Code (map (\<lambda>r. if Code r = code \<and> live r then r\<lparr>DeletedAt := Some now\<rparr> else r) rows) =
   map Code rows"
  by (induction rows) simp_all

lemma live_row_code:
  "filter (\<lambda>r. Code r = code \<and> live r) rows \<noteq> [] \<Longrightarrow> code \<in> set (map Code rows)"
  by (induction rows) (auto split: if_splits)

text \<open>
  C10 (soft delete and the existence check). When nothing fails in the backends and
  \<open>DeleteShortCode C\<close> succeeds, \<open>CodeExists C\<close> answers false afterwards, while a
  row with the code \<open>C\<close> is still in the table and so in the unique index. A later
  \<open>CreateShortCode\<close> with the custom code \<open>C\<close> therefore passes the existence check
  and goes on to the insert, which the unique index refuses.
\<close>

theorem soft_deleted_code_passes_check:
  assumes "failing w = []"
    and "fst (DeleteShortCode w now C) = Inr ()"
    and "isValidURL parse (URL req)"
    and "CustomCode req = C"
    and "isValidCode C"
  shows "fst (CodeExists (snd (DeleteShortCode w now C)) C) = Inr False \<and>
         C \<in> set (map Code (short_codes (snd (DeleteShortCode w now C)))) \<and>
         CreateShortCode parse baseURL (snd (DeleteShortCode w now C)) later req =
           (Inl (Wrap ''failed to create short code'' UniqueViolation),
            (snd (DeleteShortCode w now C))
              \<lparr>issued := issued (snd (DeleteShortCode w now C)) @
                          [CountByCode C, InsertShortCode C]\<rparr>)"
proof -
  let ?w = "snd (DeleteShortCode w now C)"
  have some: "filter (\<lambda>r. Code r = C \<and> live r) (short_codes w) \<noteq> []"
    using assms(1,2) by (auto simp: DeleteShortCode_def Delete_never_failing split: if_splits)
  have rows: "short_codes ?w =
      map (\<lambda>r. if Code r = C \<and> live r then r\<lparr>DeletedAt := Some now\<rparr> else r) (short_codes w)"
    using assms(1) some by (simp add: DeleteShortCode_def Delete_never_failing)
  have nf: "failing ?w = []"
    using assms(1) by (simp add: DeleteShortCode_def Delete_never_failing)
  have gone: "filter (\<lambda>r. Code r = C \<and> live r) (short_codes ?w) = []"
    unfolding rows by (rule soft_deleted_not_live)
  have still: "C \<in> set (map Code (short_codes ?w))"
    unfolding rows soft_deleted_codes using some by (rule live_row_code)
  have check: "CodeExists ?w C = (Inr False, ?w\<lparr>issued := issued ?w @ [CountByCode C]\<rparr>)"
    using nf gone by (simp add: CodeExists_never_failing)
  have nonempty: "C \<noteq> ''''"
    using assms(5) by (auto simp: isValidCode_def)
  have choose: "chooseCode ?w req = (Inr C, ?w\<lparr>issued := issued ?w @ [CountByCode C]\<rparr>)"
    using assms(4,5) nonempty check by (simp add: chooseCode_def)
  have nf': "failing (?w\<lparr>issued := issued ?w @ [CountByCode C]\<rparr>) = []"
    using nf by simp
  have ins: "\<And>sc. Code sc = C \<Longrightarrow>
      Create (?w\<lparr>issued := issued ?w @ [CountByCode C]\<rparr>) later sc =
        (Inl UniqueViolation, ?w\<lparr>issued := issued ?w @ [CountByCode C, InsertShortCode C]\<rparr>)"
    using still by (simp add: Create_never_failing [OF nf'])
  have create: "CreateShortCode parse baseURL ?w later req =
      (Inl (Wrap ''failed to create short code'' UniqueViolation),
       ?w\<lparr>issued := issued ?w @ [CountByCode C, InsertShortCode C]\<rparr>)"
    using assms(3) choose ins by (simp add: CreateShortCode_def)
  show ?thesis
    using check still create by simp
qed

lemma hours_Duration_1: "hours_Duration 1 = Hour"
  by (simp add: hours_Duration_def Hour_def)

lemma created_world_eq:
  "created_world =
     \<lparr>short_codes =
        [\<lparr>ID = 1, Code = ''test1'', OriginalURL = ''https://example.com/a'', CreatedAt = 0,
          UpdatedAt = 0, ExpiresAt = Some Hour, ClickCount = 0, LastAccessedAt = None,
          DeletedAt = None\<rparr>],
      click_logs = [], access_statistics = [], cache = Mapping.empty,
      issued = [CountByCode ''test1'', InsertShortCode ''test1''], failing = [], entropy = []\<rparr>"
  using valid_example
  by (simp add: created_world_def CreateShortCode_def chooseCode_def example_request_def
      isValidCode_def alnum_def initial_world_def CodeExists_def Create_def send_def
      expiresAt_def hours_Duration_1 next_id_def Let_def)

lemma deleted_world_eq:
  "deleted_world =
     \<lparr>short_codes =
        [\<lparr>ID = 1, Code = ''test1'', OriginalURL = ''https://example.com/a'', CreatedAt = 0,
          UpdatedAt = 0, ExpiresAt = Some Hour, ClickCount = 0, LastAccessedAt = None,
          DeletedAt = Some 5\<rparr>],
      click_logs = [], access_statistics = [],
      cache = Mapping.delete ''shortcode:test1'' Mapping.empty,
      issued = [CountByCode ''test1'', InsertShortCode ''test1'', CacheDel ''shortcode:test1'',
                SoftDeleteByCode ''test1''],
      failing = [], entropy = []\<rparr>"
  by (simp add: deleted_world_def created_world_eq DeleteShortCode_def Delete_def
      InvalidateCache_def redis_Del_def send_def cacheKey_def live_def)

theorem soft_deleted_code_passes_check_witness:
  "failing created_world = [] \<and>
   fst (DeleteShortCode created_world 5 ''test1'') = Inr () \<and>
   isValidURL url_Parse (URL example_request) \<and>
   CustomCode example_request = ''test1'' \<and>
   isValidCode ''test1'' \<and>
   fst (CodeExists deleted_world ''test1'') = Inr False \<and>
   ''test1'' \<in> set (map Code (short_codes deleted_world)) \<and>
   CreateShortCode url_Parse ''http://localhost:8080'' deleted_world 6 example_request =
     (Inl (Wrap ''failed to create short code'' UniqueViolation),
      deleted_world\<lparr>issued := issued deleted_world @
         [CountByCode ''test1'', InsertShortCode ''test1'']\<rparr>)"
proof -
  have h1: "failing created_world = []"
    by (simp add: created_world_eq)
  have h2: "fst (DeleteShortCode created_world 5 ''test1'') = Inr ()"
    by (simp add: created_world_eq DeleteShortCode_def Delete_def InvalidateCache_def
        redis_Del_def send_def live_def)
  have h3: "isValidURL url_Parse (URL example_request)"
    using valid_example by (simp add: example_request_def)
  have h4: "CustomCode example_request = ''test1''"
    by (simp add: example_request_def)
  have h5: "isValidCode ''test1''"
    by (simp add: isValidCode_def alnum_def)
  show ?thesis
    using soft_deleted_code_passes_check [OF h1 h2 h3 h4 h5, of "''http://localhost:8080''" 6]
      h1 h2 h3 h4 h5
    by (simp add: deleted_world_def)
qed

text \<open>
  C2 (uniqueness violation on the write). When the code has been chosen (the existence
  check has passed) and a row with that code is in the table, the insert breaks the unique
  index and \<open>CreateShortCode\<close> fails with the wrapped error
  \<open>failed to create short code: ...\<close>. That error is not \<open>ErrCodeExists\<close>, and the
  handler answers 500 \<open>internal_error\<close>.
\<close>

theorem unique_violation_is_wrapped:
  assumes "isValidURL parse (URL req)"
    and "chooseCode w req = (Inr code, w1)"
    and "code \<in> set (map Code (short_codes w1))"
    and "length (issued w1) \<notin> set (failing w1)"
  shows "fst (CreateShortCode parse baseURL w now req) =
           Inl (Wrap ''failed to create short code'' UniqueViolation) \<and>
         \<not> errors_Is (Wrap ''failed to create short code'' UniqueViolation) ErrCodeExists \<and>
         Handler_CreateShortCode (fst (CreateShortCode parse baseURL w now req)) =
           (500, ''internal_error'')"
proof -
  have ins: "\<And>sc. Code sc = code \<Longrightarrow>
      Create w1 now sc = (Inl UniqueViolation, w1\<lparr>issued := issued w1 @ [InsertShortCode code]\<rparr>)"
    using assms(3,4) by (simp add: Create_def send_answered)
  have "fst (CreateShortCode parse baseURL w now req) =
      Inl (Wrap ''failed to create short code'' UniqueViolation)"
    using assms(1,2) ins [of "\<lparr>ID = 0, Code = code, OriginalURL = URL req, CreatedAt = 0,
        UpdatedAt = 0, ExpiresAt = expiresAt now req, ClickCount = 0, LastAccessedAt = None,
        DeletedAt = None\<rparr>"]
    by (simp add: CreateShortCode_def)
  then show ?thesis
    by (simp add: Handler_CreateShortCode_def)
qed

text \<open>\<open>ErrCodeExists\<close> comes from the existence check of a custom code only.\<close>

lemma ErrCodeExists_only_from_check:
  "fst (CreateShortCode parse baseURL w now req) = Inl ErrCodeExists \<Longrightarrow>
   CustomCode req \<noteq> '''' \<and> fst (CodeExists w (CustomCode req)) = Inr True"
  by (auto simp: CreateShortCode_def chooseCode_def split: if_splits prod.splits sum.splits)

theorem unique_violation_is_wrapped_witness:
  "isValidURL url_Parse (URL example_request) \<and>
   chooseCode deleted_world example_request =
     (Inr ''test1'', deleted_world\<lparr>issued := issued deleted_world @ [CountByCode ''test1'']\<rparr>) \<and>
   ''test1'' \<in> set (map Code (short_codes
       (deleted_world\<lparr>issued := issued deleted_world @ [CountByCode ''test1'']\<rparr>))) \<and>
   length (issued (deleted_world\<lparr>issued := issued deleted_world @ [CountByCode ''test1'']\<rparr>))
     \<notin> set (failing
       (deleted_world\<lparr>issued := issued deleted_world @ [CountByCode ''test1'']\<rparr>)) \<and>
   fst (CreateShortCode url_Parse ''http://localhost:8080'' deleted_world 6 example_request) =
     Inl (Wrap ''failed to create short code'' UniqueViolation) \<and>
   \<not> errors_Is (Wrap ''failed to create short code'' UniqueViolation) ErrCodeExists \<and>
   Handler_CreateShortCode
       (fst (CreateShortCode url_Parse ''http://localhost:8080'' deleted_world 6 example_request)) =
     (500, ''internal_error'')"
proof -
  let ?w1 = "deleted_world\<lparr>issued := issued deleted_world @ [CountByCode ''test1'']\<rparr>"
  have h1: "isValidURL url_Parse (URL example_request)"
    using valid_example by (simp add: example_request_def)
  have h2: "chooseCode deleted_world example_request = (Inr ''test1'', ?w1)"
    by (simp add: chooseCode_def example_request_def isValidCode_def alnum_def
        CodeExists_def send_def deleted_world_eq live_def)
  have h3: "''test1'' \<in> set (map Code (short_codes ?w1))"
    by (simp add: deleted_world_eq)
  have h4: "length (issued ?w1) \<notin> set (failing ?w1)"
    by (simp add: deleted_world_eq)
  show ?thesis
    using unique_violation_is_wrapped [OF h1 h2 h3 h4, of "''http://localhost:8080''" 6]
      h1 h2 h3 h4
    by blast
qed

text \<open>
  The code \<open>test1\<close> created, deleted and created again: the second creation fails with
  the wrapped violation, which the handler answers with 500.
\<close>

theorem unique_violation_counterexample:
  "''test1'' \<in> set (map Code (short_codes deleted_world)) \<and>
   fst (CreateShortCode url_Parse ''http://localhost:8080'' deleted_world 6 example_request) =
     Inl (Wrap ''failed to create short code'' UniqueViolation) \<and>
   Handler_CreateShortCode
       (fst (CreateShortCode url_Parse ''http://localhost:8080'' deleted_world 6 example_request)) =
     (500, ''internal_error'')"
  using valid_example
  by (simp add: deleted_world_eq CreateShortCode_def chooseCode_def example_request_def
      isValidCode_def alnum_def CodeExists_def Create_def send_def live_def
      Handler_CreateShortCode_def)

section \<open>Reads: expiration, the cache, and the errors of the statistics\<close>


lemma find_by_unique_code:
  "distinct (map Code rows) \<Longrightarrow> r \<in> set rows \<Longrightarrow>
   find (\<lambda>x. Code x = Code r \<and> P x) rows = (if P r then Some r else None)"
proof (induction rows)
  case Nil
  then show ?case by simp
next
  case (Cons a rows)
  show ?case
  proof (cases "a = r")
    case True
    have "find (\<lambda>x. Code x = Code r \<and> P x) rows = None" if "\<not> P r"
      using Cons.prems(1) True that by (force simp: find_None_iff image_iff)
    then show ?thesis using True by simp
  next
    case False
    then have "r \<in> set rows" using Cons.prems(2) by simp
    moreover have "Code a \<noteq> Code r"
      using Cons.prems(1) \<open>r \<in> set rows\<close> by auto
    ultimately show ?thesis using Cons by simp
  qed
qed

lemma redis_Get_miss:
  "Mapping.lookup (cache w) k = None \<Longrightarrow> fst (redis_Get w now k) = None"
  by (simp add: redis_Get_def send_def)

lemma GetOriginalURL_not_live:
  assumes "Mapping.lookup (cache w) (cacheKey code) = None"
    and "find (\<lambda>r. Code r = code \<and> unexpired now r \<and> live r) (short_codes w) = None"
  shows "fst (GetOriginalURL w now code) = Inl ErrCodeNotFound"
  using assms
  by (simp add: GetOriginalURL_def GetByCode_def redis_Get_def send_def Let_def split_beta
      split: option.splits)

text \<open>
  C3 (a record whose expiration lies in the past). With the unique index on the code in
  force, a live record \<open>r\<close> whose expiration is not after \<open>now\<close>, no entry for its
  code in the cache and no failing backend: \<open>GetOriginalURL\<close> fails with
  \<open>ErrCodeNotFound\<close>, while \<open>GetStats\<close> and \<open>GetDetailedStats\<close>, whose queries do
  not look at the expiration, answer the statistics of \<open>r\<close>.
\<close>

theorem expired_record_reads:
  assumes "failing w = []"
    and "distinct (map Code (short_codes w))"
    and "r \<in> set (short_codes w)"
    and "live r"
    and "ExpiresAt r = Some e"
    and "e \<le> now"
    and "Mapping.lookup (cache w) (cacheKey (Code r)) = None"
  shows "fst (GetOriginalURL w now (Code r)) = Inl ErrCodeNotFound \<and>
         fst (svc_GetStats w (Code r)) =
           Inr \<lparr>st_Code = Code r, st_OriginalURL = OriginalURL r, st_ClickCount = ClickCount r,
                st_CreatedAt = CreatedAt r, st_LastAccessedAt = LastAccessedAt r\<rparr> \<and>
         (case fst (svc_GetDetailedStats w now (Code r) hours) of
            Inl err \<Rightarrow> False
          | Inr stats \<Rightarrow>
              ds_Code stats = Code r \<and> ds_OriginalURL stats = OriginalURL r \<and>
              ds_TotalClicks stats = ClickCount r)"
proof -
  have expired: "\<not> unexpired now r"
    using assms(5,6) by (simp add: unexpired_def)
  have "find (\<lambda>x. Code x = Code r \<and> (unexpired now x \<and> live x)) (short_codes w) = None"
    using find_by_unique_code [OF assms(2,3), of "\<lambda>x. unexpired now x \<and> live x"] expired
    by simp
  then have a: "fst (GetOriginalURL w now (Code r)) = Inl ErrCodeNotFound"
    using assms(7) by (intro GetOriginalURL_not_live) simp_all
  have base: "find (\<lambda>x. Code x = Code r \<and> live x) (short_codes w) = Some r"
    using find_by_unique_code [OF assms(2,3), of live] assms(4) by simp
  have b: "fst (svc_GetStats w (Code r)) =
      Inr \<lparr>st_Code = Code r, st_OriginalURL = OriginalURL r, st_ClickCount = ClickCount r,
           st_CreatedAt = CreatedAt r, st_LastAccessedAt = LastAccessedAt r\<rparr>"
    using assms(1) base by (simp add: svc_GetStats_def GetStats_def send_never_failing)
  have c: "(case fst (svc_GetDetailedStats w now (Code r) hours) of
            Inl err \<Rightarrow> False
          | Inr stats \<Rightarrow>
              ds_Code stats = Code r \<and> ds_OriginalURL stats = OriginalURL r \<and>
              ds_TotalClicks stats = ClickCount r)"
    using assms(1) base
    by (simp add: svc_GetDetailedStats_def GetDetailedStats_def send_never_failing Let_def)
  show ?thesis using a b c by simp
qed

text \<open>
  C7 (errors of the detailed statistics). When the base record resolves and one of the
  four sub-queries that follow fails, the repository returns the failure of the backend
  as it is; the service turns it, like every error of the repository, into
  \<open>ErrCodeNotFound\<close>, and the handler answers 404 \<open>not_found\<close>. When no live
  record has the code, the repository fails with \<open>short code not found\<close> and the
  service with \<open>ErrCodeNotFound\<close>.
\<close>

theorem sub_query_failure_is_not_found:
  assumes "length (issued w) \<notin> set (failing w)"
    and "find (\<lambda>r. Code r = code \<and> live r) (short_codes w) = Some r"
    and "1 \<le> k" and "k \<le> 4"
    and "length (issued w) + k \<in> set (failing w)"
  shows "fst (GetDetailedStats w now code hours) = Inl BackendError \<and>
         fst (svc_GetDetailedStats w now code hours) = Inl ErrCodeNotFound \<and>
         Handler_GetDetailedStats (fst (svc_GetDetailedStats w now code hours)) =
           (404, ''not_found'') \<and>
         (\<forall>c. find (\<lambda>r. Code r = c \<and> live r) (short_codes w) = None \<longrightarrow>
              fst (GetDetailedStats w now c hours) = Inl (New ''short code not found'') \<and>
              fst (svc_GetDetailedStats w now c hours) = Inl ErrCodeNotFound)"
proof -
  have absent: "fst (GetDetailedStats w now c hours) = Inl (New ''short code not found'') \<and>
      fst (svc_GetDetailedStats w now c hours) = Inl ErrCodeNotFound"
    if "find (\<lambda>r. Code r = c \<and> live r) (short_codes w) = None" for c
    using assms(1) that
    by (simp add: svc_GetDetailedStats_def GetDetailedStats_def send_answered)
  have k: "k = Suc 0 \<or> k = Suc (Suc 0) \<or> k = Suc (Suc (Suc 0)) \<or>
      k = Suc (Suc (Suc (Suc 0)))"
    using assms(3,4) by arith
  have repo: "fst (GetDetailedStats w now code hours) = Inl BackendError"
    using assms(1,2,5) k
    by (auto simp: GetDetailedStats_def send_def Let_def)
  then have "fst (svc_GetDetailedStats w now code hours) = Inl ErrCodeNotFound"
    by (cases "GetDetailedStats w now code hours") (simp add: svc_GetDetailedStats_def)
  then show ?thesis
    using repo absent by (simp add: Handler_GetDetailedStats_def)
qed

lemma created_world_row:
  "created_world =
     \<lparr>short_codes = [example_row], click_logs = [], access_statistics = [],
      cache = Mapping.empty,
      issued = [CountByCode ''test1'', InsertShortCode ''test1''], failing = [], entropy = []\<rparr>"
  by (simp add: created_world_eq example_row_def)

theorem expired_record_reads_witness:
  "failing created_world = [] \<and>
   distinct (map Code (short_codes created_world)) \<and>
   example_row \<in> set (short_codes created_world) \<and>
   live example_row \<and>
   ExpiresAt example_row = Some Hour \<and>
   Hour \<le> 2 * Hour \<and>
   Mapping.lookup (cache created_world) (cacheKey (Code example_row)) = None \<and>
   fst (GetOriginalURL created_world (2 * Hour) ''test1'') = Inl ErrCodeNotFound \<and>
   fst (svc_GetStats created_world ''test1'') =
     Inr \<lparr>st_Code = ''test1'', st_OriginalURL = ''https://example.com/a'', st_ClickCount = 0,
          st_CreatedAt = 0, st_LastAccessedAt = None\<rparr> \<and>
   (case fst (svc_GetDetailedStats created_world (2 * Hour) ''test1'' 0) of
      Inl err \<Rightarrow> False
    | Inr stats \<Rightarrow>
        ds_Code stats = ''test1'' \<and> ds_OriginalURL stats = ''https://example.com/a'' \<and>
        ds_TotalClicks stats = 0)"
proof -
  have h1: "failing created_world = []"
    by (simp add: created_world_row)
  have h2: "distinct (map Code (short_codes created_world))"
    by (simp add: created_world_row)
  have h3: "example_row \<in> set (short_codes created_world)"
    by (simp add: created_world_row)
  have h4: "live example_row"
    by (simp add: live_def example_row_def)
  have h5: "ExpiresAt example_row = Some Hour"
    by (simp add: example_row_def)
  have h6: "Hour \<le> 2 * Hour"
    by (simp add: Hour_def)
  have h7: "Mapping.lookup (cache created_world) (cacheKey (Code example_row)) = None"
    by (simp add: created_world_row)
  have f: "Code example_row = ''test1''" "OriginalURL example_row = ''https://example.com/a''"
    "ClickCount example_row = 0" "CreatedAt example_row = 0" "LastAccessedAt example_row = None"
    by (simp_all add: example_row_def)
  show ?thesis
    using expired_record_reads [OF h1 h2 h3 h4 h5 h6 h7, of 0] h1 h2 h3 h4 h5 h6 h7
    unfolding f by blast
qed

text \<open>
  The code \<open>test1\<close> expires at one hour; \<open>GetStats\<close> still answers its statistics.
\<close>

theorem expired_record_stats_counterexample:
  "example_row \<in> set (short_codes created_world) \<and>
   ExpiresAt example_row = Some Hour \<and>
   Hour < 2 * Hour \<and>
   fst (svc_GetStats created_world ''test1'') =
     Inr \<lparr>st_Code = ''test1'', st_OriginalURL = ''https://example.com/a'', st_ClickCount = 0,
          st_CreatedAt = 0, st_LastAccessedAt = None\<rparr>"
  by (simp add: created_world_row svc_GetStats_def GetStats_def send_def live_def
      example_row_def Hour_def)

theorem sub_query_failure_is_not_found_witness:
  "length (issued (created_world\<lparr>failing := [3]\<rparr>)) \<notin>
     set (failing (created_world\<lparr>failing := [3]\<rparr>)) \<and>
   find (\<lambda>r. Code r = ''test1'' \<and> live r) (short_codes (created_world\<lparr>failing := [3]\<rparr>)) =
     Some example_row \<and>
   (1::nat) \<le> 1 \<and> (1::nat) \<le> 4 \<and>
   length (issued (created_world\<lparr>failing := [3]\<rparr>)) + 1 \<in>
     set (failing (created_world\<lparr>failing := [3]\<rparr>)) \<and>
   fst (GetDetailedStats (created_world\<lparr>failing := [3]\<rparr>) 7 ''test1'' 0) = Inl BackendError \<and>
   fst (svc_GetDetailedStats (created_world\<lparr>failing := [3]\<rparr>) 7 ''test1'' 0) =
     Inl ErrCodeNotFound \<and>
   Handler_GetDetailedStats
       (fst (svc_GetDetailedStats (created_world\<lparr>failing := [3]\<rparr>) 7 ''test1'' 0)) =
     (404, ''not_found'') \<and>
   find (\<lambda>r. Code r = ''none'' \<and> live r) (short_codes (created_world\<lparr>failing := [3]\<rparr>)) =
     None \<and>
   fst (GetDetailedStats (created_world\<lparr>failing := [3]\<rparr>) 7 ''none'' 0) =
     Inl (New ''short code not found'') \<and>
   fst (svc_GetDetailedStats (created_world\<lparr>failing := [3]\<rparr>) 7 ''none'' 0) =
     Inl ErrCodeNotFound"
proof -
  let ?w = "created_world\<lparr>failing := [3]\<rparr>"
  have h1: "length (issued ?w) \<notin> set (failing ?w)"
    by (simp add: created_world_row)
  have h2: "find (\<lambda>r. Code r = ''test1'' \<and> live r) (short_codes ?w) = Some example_row"
    by (simp add: created_world_row live_def example_row_def)
  have h3: "(1::nat) \<le> 1" by simp
  have h4: "(1::nat) \<le> 4" by simp
  have h5: "length (issued ?w) + 1 \<in> set (failing ?w)"
    by (simp add: created_world_row)
  have h6: "find (\<lambda>r. Code r = ''none'' \<and> live r) (short_codes ?w) = None"
    by (simp add: created_world_row example_row_def)
  show ?thesis
    using sub_query_failure_is_not_found [OF h1 h2 h3 h4 h5, of 7 0] h1 h2 h3 h4 h5 h6
    by blast
qed

text \<open>
  The base record of \<open>test1\<close> is read, then the count of the distinct addresses
  fails (the fourth statement sent): the caller of the service gets \<open>ErrCodeNotFound\<close>.
\<close>

theorem sub_query_failure_counterexample:
  "issued (snd (GetDetailedStats (created_world\<lparr>failing := [3]\<rparr>) 7 ''test1'' 0)) =
     [CountByCode ''test1'', InsertShortCode ''test1'', SelectByCode ''test1'',
      CountUniqueIPs 1] \<and>
   fst (GetDetailedStats (created_world\<lparr>failing := [3]\<rparr>) 7 ''test1'' 0) = Inl BackendError \<and>
   fst (svc_GetDetailedStats (created_world\<lparr>failing := [3]\<rparr>) 7 ''test1'' 0) =
     Inl ErrCodeNotFound \<and>
   Handler_GetDetailedStats
       (fst (svc_GetDetailedStats (created_world\<lparr>failing := [3]\<rparr>) 7 ''test1'' 0)) =
     (404, ''not_found'')"
  by (simp add: created_world_row svc_GetDetailedStats_def GetDetailedStats_def send_def
      live_def example_row_def Let_def Handler_GetDetailedStats_def)

text \<open>
  C1 (round trip with expiration), on the example: \<open>test1\<close> is created at instant 0
  with an expiration of one hour. A read before the expiration answers the URL and fills
  the cache for 24 hours; a read at two hours then answers the URL from the cache, where
  the same read without the earlier one fails with \<open>ErrCodeNotFound\<close>.
\<close>

theorem expired_code_served_from_cache:
  "fst (CreateShortCode url_Parse ''http://localhost:8080'' initial_world 0 example_request) =
     Inr \<lparr>resp_ShortCode = ''test1'', resp_ShortURL = ''http://localhost:8080/test1'',
          resp_OriginalURL = ''https://example.com/a'', resp_CreatedAt = 0,
          resp_ExpiresAt = Some Hour\<rparr> \<and>
   fst (GetOriginalURL created_world 1 ''test1'') = Inr ''https://example.com/a'' \<and>
   Hour < 2 * Hour \<and>
   fst (GetOriginalURL (snd (GetOriginalURL created_world 1 ''test1'')) (2 * Hour) ''test1'') =
     Inr ''https://example.com/a'' \<and>
   fst (GetOriginalURL created_world (2 * Hour) ''test1'') = Inl ErrCodeNotFound"
proof -
  have a: "fst (CreateShortCode url_Parse ''http://localhost:8080'' initial_world 0
        example_request) =
      Inr \<lparr>resp_ShortCode = ''test1'', resp_ShortURL = ''http://localhost:8080/test1'',
           resp_OriginalURL = ''https://example.com/a'', resp_CreatedAt = 0,
           resp_ExpiresAt = Some Hour\<rparr>"
    using valid_example
    by (simp add: CreateShortCode_def chooseCode_def example_request_def
      isValidCode_def alnum_def initial_world_def CodeExists_def Create_def send_def
      expiresAt_def hours_Duration_1 next_id_def Let_def)
  have b: "GetOriginalURL created_world 1 ''test1'' =
      (Inr ''https://example.com/a'',
       created_world\<lparr>issued := issued created_world @
           [CacheGet ''shortcode:test1'', SelectLiveByCode ''test1'', CacheSet ''shortcode:test1''],
         cache := Mapping.update ''shortcode:test1''
           \<lparr>stored = Encoded example_row, expiry = 1 + 24 * Hour\<rparr> Mapping.empty\<rparr>)"
    by (simp add: created_world_row GetOriginalURL_def GetByCode_def redis_Get_def redis_Set_def
        send_def cacheKey_def live_def unexpired_def example_row_def json_Marshal_def Hour_def
        Let_def)
  have c: "fst (GetOriginalURL (created_world\<lparr>issued := issued created_world @
           [CacheGet ''shortcode:test1'', SelectLiveByCode ''test1'', CacheSet ''shortcode:test1''],
         cache := Mapping.update ''shortcode:test1''
           \<lparr>stored = Encoded example_row, expiry = 1 + 24 * Hour\<rparr> Mapping.empty\<rparr>)
        (2 * Hour) ''test1'') = Inr ''https://example.com/a''"
    by (simp add: created_world_row GetOriginalURL_def GetByCode_def redis_Get_def
        send_def cacheKey_def json_Unmarshal_def example_row_def Hour_def Let_def)
  have d: "fst (GetOriginalURL created_world (2 * Hour) ''test1'') = Inl ErrCodeNotFound"
    by (simp add: created_world_row GetOriginalURL_def GetByCode_def redis_Get_def
        send_def cacheKey_def live_def unexpired_def example_row_def Hour_def Let_def)
  show ?thesis
    using a b c d by (simp add: Hour_def)
qed

section \<open>RecordAccessStats: one row per code, address and hour\<close>


lemma fold_max_ge: "x \<in> set ids \<Longrightarrow> x \<le> fold max ids (a::nat)"
proof (induction ids arbitrary: a)
  case Nil
  then show ?case by simp
next
  case (Cons y ys)
  have mono: "b \<le> fold max ys b" for b :: nat
    by (induction ys arbitrary: b) (simp, metis fold_simps(2) max.bounded_iff)
  show ?case
  proof (cases "x = y")
    case True
    have "y \<le> max y a" by simp
    also have "\<dots> \<le> fold max ys (max y a)" by (rule mono)
    finally show ?thesis using True by simp
  next
    case False
    then show ?thesis using Cons by simp
  qed
qed

lemma next_id_fresh: "next_id ids \<notin> set ids"
proof
  assume "next_id ids \<in> set ids"
  then have "next_id ids \<le> fold max ids 0" by (rule fold_max_ge)
  then show False by (simp add: next_id_def)
qed

lemma same_key_iff: "same_key stats r \<longleftrightarrow> stat_key r = stat_key stats"
  by (auto simp: same_key_def stat_key_def)

lemma map_only_one:
  "distinct (map f rows) \<Longrightarrow> x \<in> set rows \<Longrightarrow>
   map (\<lambda>r. if f r = f x then g r else r) rows = map (\<lambda>r. if r = x then g r else r) rows"
  by (rule map_cong) (auto simp: distinct_map inj_on_def)

text \<open>
  C4 (upsert of the hourly counter). On a table whose rows have distinct primary keys and
  distinct keys (code, address, hour bucket), with no failing backend, for a struct whose
  \<open>ShortCodeID\<close> is the primary key of a stored short code and whose own primary key is
  unset or not in use, a call succeeds and: when no row has the key of the call, one row
  is appended for it with count 1; when a row has it, the count of that row grows by one
  and nothing else changes. Either way the rows keep distinct primary keys and distinct
  keys.
\<close>

theorem RecordAccessStats_upsert:
  assumes "failing w = []"
    and "distinct (map as_ID (access_statistics w))"
    and "distinct (map stat_key (access_statistics w))"
    and "as_ShortCodeID stats \<in> set (map ID (short_codes w))"
    and "as_ID stats = 0 \<or> as_ID stats \<notin> set (map as_ID (access_statistics w))"
  shows "fst (RecordAccessStats w now stats) = Inr () \<and>
         (if stat_key stats \<in> set (map stat_key (access_statistics w))
          then access_statistics (snd (RecordAccessStats w now stats)) =
                 map (\<lambda>r. if stat_key r = stat_key stats
                           then r\<lparr>as_AccessCount := as_AccessCount r + 1\<rparr> else r)
                   (access_statistics w)
          else access_statistics (snd (RecordAccessStats w now stats)) =
                 access_statistics w @
                 [stats\<lparr>as_ID := (if as_ID stats = 0
                                  then next_id (map as_ID (access_statistics w))
                                  else as_ID stats),
                        as_AccessCount := 1,
                        as_CreatedAt := (if IsZero (as_CreatedAt stats) then now
                                         else as_CreatedAt stats),
                        as_UpdatedAt := (if IsZero (as_UpdatedAt stats) then now
                                         else as_UpdatedAt stats)\<rparr>]) \<and>
         short_codes (snd (RecordAccessStats w now stats)) = short_codes w \<and>
         distinct (map as_ID (access_statistics (snd (RecordAccessStats w now stats)))) \<and>
         distinct (map stat_key (access_statistics (snd (RecordAccessStats w now stats))))"
proof (cases "find (same_key stats) (access_statistics w)")
  case None
  then have absent: "stat_key stats \<notin> set (map stat_key (access_statistics w))"
    by (auto simp: find_None_iff same_key_iff)
  let ?id = "if as_ID stats = 0 then next_id (map as_ID (access_statistics w))
             else as_ID stats"
  let ?new = "stats\<lparr>as_ID := ?id, as_AccessCount := 1,
                     as_CreatedAt := (if IsZero (as_CreatedAt stats) then now
                                      else as_CreatedAt stats),
                     as_UpdatedAt := (if IsZero (as_UpdatedAt stats) then now
                                      else as_UpdatedAt stats)\<rparr>"
  have free: "\<not> (as_ID stats \<noteq> 0 \<and> as_ID stats \<in> set (map as_ID (access_statistics w)))"
    using assms(5) by auto
  have run: "RecordAccessStats w now stats =
      (Inr (), w\<lparr>issued := issued w @
          [SelectAccessStats (as_ShortCodeID stats) (as_IPAddress stats) (as_HourBucket stats),
           InsertAccessStats (as_ShortCodeID stats) (as_IPAddress stats) (as_HourBucket stats)],
        access_statistics := access_statistics w @ [?new]\<rparr>)"
    using assms(1,4) None free by (simp add: RecordAccessStats_def send_never_failing)
  have key: "stat_key ?new = stat_key stats"
    by (simp add: stat_key_def)
  have fresh: "?id \<notin> set (map as_ID (access_statistics w))"
    using assms(5) next_id_fresh [of "map as_ID (access_statistics w)"] by auto
  have ids: "distinct (map as_ID (access_statistics w @ [?new]))"
    using assms(2) fresh by simp
  have keys: "distinct (map stat_key (access_statistics w @ [?new]))"
    using assms(3) absent key by simp
  show ?thesis
    using absent ids keys unfolding run by simp
next
  case (Some existing)
  then have mem: "existing \<in> set (access_statistics w)"
    and k: "stat_key existing = stat_key stats"
    by (auto simp: find_Some_iff same_key_iff in_set_conv_nth)
  have "stat_key existing \<in> set (map stat_key (access_statistics w))"
    using mem by simp
  then have present: "stat_key stats \<in> set (map stat_key (access_statistics w))"
    unfolding k .
  let ?rows = "map (\<lambda>r. if as_ID r = as_ID existing
                          then r\<lparr>as_AccessCount := as_AccessCount r + 1\<rparr> else r)
                 (access_statistics w)"
  have run: "RecordAccessStats w now stats =
      (Inr (), w\<lparr>issued := issued w @
          [SelectAccessStats (as_ShortCodeID stats) (as_IPAddress stats) (as_HourBucket stats),
           IncrementAccessStats (as_ID existing)],
        access_statistics := ?rows\<rparr>)"
    using assms(1) Some by (simp add: RecordAccessStats_def send_never_failing)
  have by_key: "?rows =
      map (\<lambda>r. if stat_key r = stat_key stats
                then r\<lparr>as_AccessCount := as_AccessCount r + 1\<rparr> else r) (access_statistics w)"
    unfolding k [symmetric]
    using map_only_one [OF assms(2) mem] map_only_one [OF assms(3) mem] by simp
  have ids: "map as_ID ?rows = map as_ID (access_statistics w)"
    by (induction "access_statistics w") simp_all
  have keys: "map stat_key ?rows = map stat_key (access_statistics w)"
    by (rule nth_equalityI) (simp_all add: stat_key_def)
  show ?thesis
    using present assms(2,3) by_key unfolding run by (simp add: ids keys del: map_map)
qed

lemma counted_world_eq:
  "counted_world =
     created_world\<lparr>issued := issued created_world @
                      [SelectAccessStats 1 ''203.0.113.7'' 0, InsertAccessStats 1 ''203.0.113.7'' 0],
                    access_statistics :=
                      [example_stats\<lparr>as_ID := 1, as_AccessCount := 1, as_CreatedAt := 5,
                                     as_UpdatedAt := 5\<rparr>]\<rparr>"
  by (simp add: counted_world_def RecordAccessStats_def send_def created_world_eq
      example_stats_def next_id_def IsZero_def)

theorem RecordAccessStats_upsert_witness:
  "failing created_world = [] \<and> access_statistics created_world = [] \<and>
   map ID (short_codes created_world) = [1] \<and>
   as_ShortCodeID example_stats = 1 \<and> as_ID example_stats = 0 \<and>
   fst (RecordAccessStats created_world 5 example_stats) = Inr () \<and>
   access_statistics (snd (RecordAccessStats created_world 5 example_stats)) =
     [example_stats\<lparr>as_ID := 1, as_AccessCount := 1, as_CreatedAt := 5, as_UpdatedAt := 5\<rparr>] \<and>
   counted_world = snd (RecordAccessStats created_world 5 example_stats) \<and>
   fst (RecordAccessStats counted_world 9 example_stats) = Inr () \<and>
   access_statistics (snd (RecordAccessStats counted_world 9 example_stats)) =
     [example_stats\<lparr>as_ID := 1, as_AccessCount := 2, as_CreatedAt := 5, as_UpdatedAt := 5\<rparr>]"
proof -
  have a1: "failing created_world = []"
    and a2: "distinct (map as_ID (access_statistics created_world))"
    and a3: "distinct (map stat_key (access_statistics created_world))"
    and a4: "as_ShortCodeID example_stats \<in> set (map ID (short_codes created_world))"
    and a5: "as_ID example_stats = 0 \<or>
             as_ID example_stats \<notin> set (map as_ID (access_statistics created_world))"
    by (simp_all add: created_world_eq example_stats_def)
  have b1: "failing counted_world = []"
    and b2: "distinct (map as_ID (access_statistics counted_world))"
    and b3: "distinct (map stat_key (access_statistics counted_world))"
    and b4: "as_ShortCodeID example_stats \<in> set (map ID (short_codes counted_world))"
    and b5: "as_ID example_stats = 0 \<or>
             as_ID example_stats \<notin> set (map as_ID (access_statistics counted_world))"
    by (simp_all add: counted_world_eq created_world_eq example_stats_def)
  have first: "fst (RecordAccessStats created_world 5 example_stats) = Inr () \<and>
      access_statistics (snd (RecordAccessStats created_world 5 example_stats)) =
        [example_stats\<lparr>as_ID := 1, as_AccessCount := 1, as_CreatedAt := 5, as_UpdatedAt := 5\<rparr>]"
    using RecordAccessStats_upsert [OF a1 a2 a3 a4 a5, of 5]
    by (simp add: created_world_eq example_stats_def stat_key_def next_id_def IsZero_def)
  have second: "fst (RecordAccessStats counted_world 9 example_stats) = Inr () \<and>
      access_statistics (snd (RecordAccessStats counted_world 9 example_stats)) =
        [example_stats\<lparr>as_ID := 1, as_AccessCount := 2, as_CreatedAt := 5, as_UpdatedAt := 5\<rparr>]"
    using RecordAccessStats_upsert [OF b1 b2 b3 b4 b5, of 9]
    by (simp add: counted_world_eq created_world_eq example_stats_def stat_key_def)
  have facts: "failing created_world = [] \<and> access_statistics created_world = [] \<and>
      map ID (short_codes created_world) = [1] \<and>
      as_ShortCodeID example_stats = 1 \<and> as_ID example_stats = 0"
    by (simp add: created_world_eq example_stats_def)
  show ?thesis
    using first second facts by (simp add: counted_world_def)
qed

text \<open>
  The same call on the initial state, where no short code is stored: no row has the key
  of the call, and none is inserted. The insert is refused by the foreign key.
\<close>

theorem RecordAccessStats_no_owner_counterexample:
  "failing initial_world = [] \<and> short_codes initial_world = [] \<and>
   access_statistics initial_world = [] \<and>
   fst (RecordAccessStats initial_world 5 example_stats) = Inl ForeignKeyViolation \<and>
   access_statistics (snd (RecordAccessStats initial_world 5 example_stats)) = []"
  by (simp add: RecordAccessStats_def send_def initial_world_def example_stats_def)

section \<open>Generated codes\<close>


lemma charset_alnum: "list_all alnum charset"
  by (simp add: charset_def alnum_def)

lemma charset_length: "length charset = 62"
  by (simp add: charset_def)

lemma charset_nth_alnum: "alnum (charset ! (r mod length charset))"
proof -
  have "r mod length charset < length charset"
    by (simp add: charset_length)
  then show ?thesis
    using charset_alnum by (simp add: list_all_length)
qed

lemma generateRandomCode_eq:
  "generateRandomCode n w =
     (if n \<le> length (entropy w)
      then (Some (map (\<lambda>r. charset ! (r mod length charset)) (take n (entropy w))),
            w\<lparr>entropy := drop n (entropy w)\<rparr>)
      else (None, w\<lparr>entropy := []\<rparr>))"
proof (induction n arbitrary: w)
  case 0
  then show ?case by simp
next
  case (Suc n)
  show ?case
  proof (cases "entropy w")
    case Nil
    then show ?thesis by (simp add: rand_Int_def)
  next
    case (Cons r rs)
    then show ?thesis
      by (simp add: rand_Int_def Suc)
  qed
qed

lemma rounds_trace:
  "short_codes (snd (generateUniqueCode_rounds n w)) = short_codes w \<and>
   failing (snd (generateUniqueCode_rounds n w)) = failing w \<and>
   (\<exists>codes. issued (snd (generateUniqueCode_rounds n w)) = issued w @ map CountByCode codes \<and>
            length codes \<le> n)"
proof (induction n arbitrary: w)
  case 0
  then show ?case by simp
next
  case (Suc n)
  show ?case
  proof (cases "defaultCodeLength \<le> length (entropy w)")
    case False
    then have "generateUniqueCode_rounds (Suc n) w = (Inl Panic, w\<lparr>entropy := []\<rparr>)"
      by (simp add: generateRandomCode_eq)
    then show ?thesis by simp
  next
    case True
    let ?code = "map (\<lambda>r. charset ! (r mod length charset)) (take defaultCodeLength (entropy w))"
    let ?w1 = "w\<lparr>entropy := drop defaultCodeLength (entropy w)\<rparr>"
    let ?w2 = "?w1\<lparr>issued := issued w @ [CountByCode ?code]\<rparr>"
    have gen: "generateRandomCode defaultCodeLength w = (Some ?code, ?w1)"
      using True by (simp add: generateRandomCode_eq)
    show ?thesis
    proof (cases "length (issued w) \<in> set (failing w)")
      case True
      then have "generateUniqueCode_rounds (Suc n) w = (Inl BackendError, ?w2)"
        using gen by (simp add: CodeExists_def send_def)
      then show ?thesis
        by (simp add: exI [of _ "[?code]"])
    next
      case False
      then have check: "CodeExists ?w1 ?code =
          (Inr (0 < length (filter (\<lambda>r. Code r = ?code \<and> live r) (short_codes w))), ?w2)"
        by (simp add: CodeExists_def send_def)
      show ?thesis
      proof (cases "0 < length (filter (\<lambda>r. Code r = ?code \<and> live r) (short_codes w))")
        case False
        then have "generateUniqueCode_rounds (Suc n) w = (Inr ?code, ?w2)"
          using gen check by simp
        then show ?thesis
          by (simp add: exI [of _ "[?code]"])
      next
        case True
        then have step: "generateUniqueCode_rounds (Suc n) w = generateUniqueCode_rounds n ?w2"
          using gen check by simp
        from Suc.IH [of ?w2] obtain codes where
          "short_codes (snd (generateUniqueCode_rounds n ?w2)) = short_codes w"
          "failing (snd (generateUniqueCode_rounds n ?w2)) = failing w"
          "issued (snd (generateUniqueCode_rounds n ?w2)) =
             issued w @ map CountByCode (?code # codes)"
          "length codes \<le> n"
          by auto
        then show ?thesis
          unfolding step by (intro conjI exI [of _ "?code # codes"]) simp_all
      qed
    qed
  qed
qed

lemma rounds_code:
  "fst (generateUniqueCode_rounds n w) = Inr code \<Longrightarrow>
   length code = defaultCodeLength \<and> list_all alnum code \<and>
   filter (\<lambda>r. Code r = code \<and> live r) (short_codes w) = []"
proof (induction n arbitrary: w)
  case 0
  then show ?case by simp
next
  case (Suc n)
  show ?case
  proof (cases "defaultCodeLength \<le> length (entropy w)")
    case False
    then have "generateUniqueCode_rounds (Suc n) w = (Inl Panic, w\<lparr>entropy := []\<rparr>)"
      by (simp add: generateRandomCode_eq)
    then show ?thesis using Suc.prems by simp
  next
    case True
    let ?code = "map (\<lambda>r. charset ! (r mod length charset)) (take defaultCodeLength (entropy w))"
    let ?w1 = "w\<lparr>entropy := drop defaultCodeLength (entropy w)\<rparr>"
    let ?w2 = "?w1\<lparr>issued := issued w @ [CountByCode ?code]\<rparr>"
    have gen: "generateRandomCode defaultCodeLength w = (Some ?code, ?w1)"
      using True by (simp add: generateRandomCode_eq)
    have shape: "length ?code = defaultCodeLength \<and> list_all alnum ?code"
      using True by (simp add: list_all_iff charset_nth_alnum)
    show ?thesis
    proof (cases "length (issued w) \<in> set (failing w)")
      case True
      then have "generateUniqueCode_rounds (Suc n) w = (Inl BackendError, ?w2)"
        using gen by (simp add: CodeExists_def send_def)
      then show ?thesis using Suc.prems by simp
    next
      case False
      then have check: "CodeExists ?w1 ?code =
          (Inr (0 < length (filter (\<lambda>r. Code r = ?code \<and> live r) (short_codes w))), ?w2)"
        by (simp add: CodeExists_def send_def)
      show ?thesis
      proof (cases "0 < length (filter (\<lambda>r. Code r = ?code \<and> live r) (short_codes w))")
        case False
        then have "generateUniqueCode_rounds (Suc n) w = (Inr ?code, ?w2)"
          using gen check by simp
        then have "code = ?code" using Suc.prems by simp
        then show ?thesis using shape False by simp
      next
        case True
        then have step: "generateUniqueCode_rounds (Suc n) w = generateUniqueCode_rounds n ?w2"
          using gen check by simp
        show ?thesis
          using Suc.IH [of ?w2] Suc.prems unfolding step by simp
      qed
    qed
  qed
qed

lemma candidate_shape:
  "defaultCodeLength * Suc k \<le> length (entropy w) \<Longrightarrow>
   length (candidate w k) = defaultCodeLength \<and> list_all alnum (candidate w k)"
  by (simp add: candidate_def list_all_iff charset_nth_alnum)

lemma rounds_first_free:
  "failing w = [] \<Longrightarrow> defaultCodeLength * Suc k \<le> length (entropy w) \<Longrightarrow> k < n \<Longrightarrow>
   (\<forall>i<k. filter (\<lambda>r. Code r = candidate w i \<and> live r) (short_codes w) \<noteq> []) \<Longrightarrow>
   filter (\<lambda>r. Code r = candidate w k \<and> live r) (short_codes w) = [] \<Longrightarrow>
   generateUniqueCode_rounds n w =
     (Inr (candidate w k),
      w\<lparr>entropy := drop (defaultCodeLength * Suc k) (entropy w),
        issued := issued w @ map (\<lambda>i. CountByCode (candidate w i)) [0..<Suc k]\<rparr>)"
proof (induction n arbitrary: w k)
  case 0
  then show ?case by simp
next
  case (Suc n)
  let ?code = "map (\<lambda>r. charset ! (r mod length charset)) (take defaultCodeLength (entropy w))"
  let ?w1 = "w\<lparr>entropy := drop defaultCodeLength (entropy w)\<rparr>"
  let ?w2 = "?w1\<lparr>issued := issued w @ [CountByCode ?code]\<rparr>"
  have enough: "defaultCodeLength \<le> length (entropy w)"
    using Suc.prems(2) by simp
  have gen: "generateRandomCode defaultCodeLength w = (Some ?code, ?w1)"
    using enough by (simp add: generateRandomCode_eq)
  have c0: "candidate w 0 = ?code"
    by (simp add: candidate_def)
  have check: "CodeExists ?w1 ?code =
      (Inr (filter (\<lambda>r. Code r = ?code \<and> live r) (short_codes w) \<noteq> []), ?w2)"
    using Suc.prems(1) by (simp add: CodeExists_def send_def)
  show ?case
  proof (cases k)
    case 0
    then have free: "filter (\<lambda>r. Code r = ?code \<and> live r) (short_codes w) = []"
      using Suc.prems(5) c0 by simp
    have "generateUniqueCode_rounds (Suc n) w = (Inr ?code, ?w2)"
      using gen check free by simp
    then show ?thesis
      using 0 c0 by simp
  next
    case (Suc k')
    have taken: "filter (\<lambda>r. Code r = ?code \<and> live r) (short_codes w) \<noteq> []"
      using Suc.prems(4) c0 Suc by force
    have step: "generateUniqueCode_rounds (Suc n) w = generateUniqueCode_rounds n ?w2"
      using gen check taken by simp
    have shift: "candidate ?w2 i = candidate w (Suc i)" for i
      by (simp add: candidate_def add.commute)
    have ih: "generateUniqueCode_rounds n ?w2 =
       (Inr (candidate ?w2 k'),
        ?w2\<lparr>entropy := drop (defaultCodeLength * Suc k') (entropy ?w2),
             issued := issued ?w2 @ map (\<lambda>i. CountByCode (candidate ?w2 i)) [0..<Suc k']\<rparr>)"
    proof (rule Suc.IH)
      show "failing ?w2 = []" using Suc.prems(1) by simp
      show "defaultCodeLength * Suc k' \<le> length (entropy ?w2)"
        using Suc.prems(2) Suc by simp
      show "k' < n" using Suc.prems(3) Suc by simp
      show "\<forall>i<k'. filter (\<lambda>r. Code r = candidate ?w2 i \<and> live r) (short_codes ?w2) \<noteq> []"
        using Suc.prems(4) Suc by (simp add: shift)
      show "filter (\<lambda>r. Code r = candidate ?w2 k' \<and> live r) (short_codes ?w2) = []"
        using Suc.prems(5) Suc by (simp add: shift)
    qed
    have upt: "map (\<lambda>i. CountByCode (candidate w i)) [0..<Suc (Suc k')] =
        CountByCode ?code # map (\<lambda>i. CountByCode (candidate w (Suc i))) [0..<Suc k']"
      unfolding c0 [symmetric] by (rule map_upt_Suc)
    have dr: "drop (defaultCodeLength * Suc k') (drop defaultCodeLength (entropy w)) =
        drop (defaultCodeLength * Suc (Suc k')) (entropy w)"
      by (simp add: add.commute)
    show ?thesis
      unfolding step ih Suc upt by (simp add: shift add_ac)
  qed
qed

lemma rounds_all_taken:
  "failing w = [] \<Longrightarrow> defaultCodeLength * n \<le> length (entropy w) \<Longrightarrow>
   (\<forall>i<n. filter (\<lambda>r. Code r = candidate w i \<and> live r) (short_codes w) \<noteq> []) \<Longrightarrow>
   generateUniqueCode_rounds n w =
     (Inl (New ''failed to generate unique code after max retries''),
      w\<lparr>entropy := drop (defaultCodeLength * n) (entropy w),
        issued := issued w @ map (\<lambda>i. CountByCode (candidate w i)) [0..<n]\<rparr>)"
proof (induction n arbitrary: w)
  case 0
  then show ?case by simp
next
  case (Suc n)
  let ?code = "map (\<lambda>r. charset ! (r mod length charset)) (take defaultCodeLength (entropy w))"
  let ?w1 = "w\<lparr>entropy := drop defaultCodeLength (entropy w)\<rparr>"
  let ?w2 = "?w1\<lparr>issued := issued w @ [CountByCode ?code]\<rparr>"
  have enough: "defaultCodeLength \<le> length (entropy w)"
    using Suc.prems(2) by simp
  have gen: "generateRandomCode defaultCodeLength w = (Some ?code, ?w1)"
    using enough by (simp add: generateRandomCode_eq)
  have c0: "candidate w 0 = ?code"
    by (simp add: candidate_def)
  have taken: "filter (\<lambda>r. Code r = ?code \<and> live r) (short_codes w) \<noteq> []"
    using Suc.prems(3) c0 by force
  have check: "CodeExists ?w1 ?code = (Inr True, ?w2)"
    using Suc.prems(1) taken by (simp add: CodeExists_def send_def)
  have step: "generateUniqueCode_rounds (Suc n) w = generateUniqueCode_rounds n ?w2"
    using gen check by simp
  have shift: "candidate ?w2 i = candidate w (Suc i)" for i
    by (simp add: candidate_def add.commute)
  have ih: "generateUniqueCode_rounds n ?w2 =
     (Inl (New ''failed to generate unique code after max retries''),
      ?w2\<lparr>entropy := drop (defaultCodeLength * n) (entropy ?w2),
           issued := issued ?w2 @ map (\<lambda>i. CountByCode (candidate ?w2 i)) [0..<n]\<rparr>)"
  proof (rule Suc.IH)
    show "failing ?w2 = []" using Suc.prems(1) by simp
    show "defaultCodeLength * n \<le> length (entropy ?w2)"
      using Suc.prems(2) by simp
    show "\<forall>i<n. filter (\<lambda>r. Code r = candidate ?w2 i \<and> live r) (short_codes ?w2) \<noteq> []"
      using Suc.prems(3) by (simp add: shift)
  qed
  have upt: "map (\<lambda>i. CountByCode (candidate w i)) [0..<Suc n] =
      CountByCode ?code # map (\<lambda>i. CountByCode (candidate w (Suc i))) [0..<n]"
    unfolding c0 [symmetric] by (rule map_upt_Suc)
  have dr: "drop (defaultCodeLength * n) (drop defaultCodeLength (entropy w)) =
      drop (defaultCodeLength * Suc n) (entropy w)"
    by (simp add: add.commute)
  show ?case
    unfolding step ih upt by (simp add: shift add_ac)
qed

lemma existence_check:
  "failing w = [] \<Longrightarrow>
   (fst (CodeExists w code) = Inr True \<longleftrightarrow>
      filter (\<lambda>r. Code r = code \<and> live r) (short_codes w) \<noteq> []) \<and>
   (fst (CodeExists w code) = Inr False \<longleftrightarrow>
      filter (\<lambda>r. Code r = code \<and> live r) (short_codes w) = [])"
  by (simp add: CodeExists_never_failing)

text \<open>
  C6 (generation). Without a custom code: \<open>generateUniqueCode\<close> sends at most five
  existence checks and nothing else, and a creation that succeeds returns a code of six
  characters, each a letter or a digit, that no live row of the state had. When the URL
  is valid, the backends answer and the random source delivers its thirty values, the
  code is the first of the five candidates whose existence check answers false: if the
  checks of the candidates before the \<open>k\<close>-th answer true and the check of the
  \<open>k\<close>-th answers false, \<open>generateUniqueCode\<close> returns the \<open>k\<close>-th candidate, of six
  characters of the charset, after exactly these \<open>k + 1\<close> checks, and the creation
  stores it and answers it (provided no soft-deleted row holds it: see C10); if the checks
  of all five candidates answer true, the creation fails with \<open>failed to generate
  unique code: failed to generate unique code after max retries\<close> after exactly five
  checks, and stores nothing.
\<close>

theorem generated_code:
  assumes "CustomCode req = ''''"
  shows "(\<exists>codes. issued (snd (generateUniqueCode w)) = issued w @ map CountByCode codes \<and>
                  length codes \<le> 5) \<and>
         (\<forall>resp. fst (CreateShortCode parse baseURL w now req) = Inr resp \<longrightarrow>
            length (resp_ShortCode resp) = 6 \<and> list_all alnum (resp_ShortCode resp) \<and>
            filter (\<lambda>r. Code r = resp_ShortCode resp \<and> live r) (short_codes w) = []) \<and>
         (isValidURL parse (URL req) \<and> failing w = [] \<and> 30 \<le> length (entropy w) \<longrightarrow>
            (\<forall>k<5. (\<forall>i<k. fst (CodeExists w (candidate w i)) = Inr True) \<and>
                    fst (CodeExists w (candidate w k)) = Inr False \<longrightarrow>
               generateUniqueCode w =
                 (Inr (candidate w k),
                  w\<lparr>entropy := drop (6 * Suc k) (entropy w),
                    issued := issued w @ map (\<lambda>i. CountByCode (candidate w i)) [0..<Suc k]\<rparr>) \<and>
               length (candidate w k) = 6 \<and> list_all alnum (candidate w k) \<and>
               (candidate w k \<notin> set (map Code (short_codes w)) \<longrightarrow>
                  CreateShortCode parse baseURL w now req =
                    (Inr \<lparr>resp_ShortCode = candidate w k,
                          resp_ShortURL = baseURL @ ''/'' @ candidate w k,
                          resp_OriginalURL = URL req, resp_CreatedAt = now,
                          resp_ExpiresAt = expiresAt now req\<rparr>,
                     w\<lparr>entropy := drop (6 * Suc k) (entropy w),
                       issued := issued w @ map (\<lambda>i. CountByCode (candidate w i)) [0..<Suc k] @
                                 [InsertShortCode (candidate w k)],
                       short_codes := short_codes w @
                         [\<lparr>ID = next_id (map ID (short_codes w)), Code = candidate w k,
                           OriginalURL = URL req, CreatedAt = now, UpdatedAt = now,
                           ExpiresAt = expiresAt now req, ClickCount = 0,
                           LastAccessedAt = None, DeletedAt = None\<rparr>]\<rparr>))) \<and>
            ((\<forall>i<5. fst (CodeExists w (candidate w i)) = Inr True) \<longrightarrow>
               CreateShortCode parse baseURL w now req =
                 (Inl (Wrap ''failed to generate unique code''
                         (New ''failed to generate unique code after max retries'')),
                  w\<lparr>entropy := drop 30 (entropy w),
                    issued := issued w @ map (\<lambda>i. CountByCode (candidate w i)) [0..<5]\<rparr>)))"
proof -
  have attempts: "\<exists>codes. issued (snd (generateUniqueCode w)) = issued w @ map CountByCode codes \<and>
                 length codes \<le> 5"
    using rounds_trace [of maxRetries w] by (simp add: generateUniqueCode_def maxRetries_def)
  have shape: "length (resp_ShortCode resp) = 6 \<and> list_all alnum (resp_ShortCode resp) \<and>
     filter (\<lambda>r. Code r = resp_ShortCode resp \<and> live r) (short_codes w) = []"
    if ok: "fst (CreateShortCode parse baseURL w now req) = Inr resp" for resp
  proof -
    obtain res w1 where gen: "generateUniqueCode w = (res, w1)"
      by (cases "generateUniqueCode w")
    from ok assms gen obtain code where res: "res = Inr code"
      and code: "resp_ShortCode resp = code"
      by (cases res)
         (auto simp: CreateShortCode_def chooseCode_def split: if_splits prod.splits sum.splits)
    have "fst (generateUniqueCode_rounds maxRetries w) = Inr code"
      using gen res by (simp add: generateUniqueCode_def)
    from rounds_code [OF this] show ?thesis
      using code by (simp add: defaultCodeLength_def)
  qed
  have first: "generateUniqueCode w =
       (Inr (candidate w k),
        w\<lparr>entropy := drop (6 * Suc k) (entropy w),
          issued := issued w @ map (\<lambda>i. CountByCode (candidate w i)) [0..<Suc k]\<rparr>) \<and>
     length (candidate w k) = 6 \<and> list_all alnum (candidate w k) \<and>
     (candidate w k \<notin> set (map Code (short_codes w)) \<longrightarrow>
        CreateShortCode parse baseURL w now req =
          (Inr \<lparr>resp_ShortCode = candidate w k,
                resp_ShortURL = baseURL @ ''/'' @ candidate w k,
                resp_OriginalURL = URL req, resp_CreatedAt = now,
                resp_ExpiresAt = expiresAt now req\<rparr>,
           w\<lparr>entropy := drop (6 * Suc k) (entropy w),
             issued := issued w @ map (\<lambda>i. CountByCode (candidate w i)) [0..<Suc k] @
                       [InsertShortCode (candidate w k)],
             short_codes := short_codes w @
               [\<lparr>ID = next_id (map ID (short_codes w)), Code = candidate w k,
                 OriginalURL = URL req, CreatedAt = now, UpdatedAt = now,
                 ExpiresAt = expiresAt now req, ClickCount = 0,
                 LastAccessedAt = None, DeletedAt = None\<rparr>]\<rparr>))"
    if h: "isValidURL parse (URL req)" "failing w = []" "30 \<le> length (entropy w)"
      and k: "k < 5"
      and taken: "\<forall>i<k. fst (CodeExists w (candidate w i)) = Inr True"
      and free: "fst (CodeExists w (candidate w k)) = Inr False" for k
  proof -
    let ?w1 = "w\<lparr>entropy := drop (6 * Suc k) (entropy w),
                 issued := issued w @ map (\<lambda>i. CountByCode (candidate w i)) [0..<Suc k]\<rparr>"
    have enough: "defaultCodeLength * Suc k \<le> length (entropy w)"
      using h(3) k by (simp add: defaultCodeLength_def)
    have t: "\<forall>i<k. filter (\<lambda>r. Code r = candidate w i \<and> live r) (short_codes w) \<noteq> []"
      using taken existence_check [OF h(2)] by simp
    have f: "filter (\<lambda>r. Code r = candidate w k \<and> live r) (short_codes w) = []"
      using free existence_check [OF h(2)] by simp
    have "generateUniqueCode_rounds maxRetries w =
        (Inr (candidate w k),
         w\<lparr>entropy := drop (defaultCodeLength * Suc k) (entropy w),
           issued := issued w @ map (\<lambda>i. CountByCode (candidate w i)) [0..<Suc k]\<rparr>)"
      using h(2) enough _ t f by (rule rounds_first_free) (simp add: maxRetries_def k)
    then have gen: "generateUniqueCode w = (Inr (candidate w k), ?w1)"
      by (simp add: generateUniqueCode_def defaultCodeLength_def)
    have choose: "chooseCode w req = (Inr (candidate w k), ?w1)"
      using assms gen by (simp add: chooseCode_def)
    have sh: "length (candidate w k) = 6 \<and> list_all alnum (candidate w k)"
      using candidate_shape [OF enough] by (simp add: defaultCodeLength_def)
    have create: "CreateShortCode parse baseURL w now req =
          (Inr \<lparr>resp_ShortCode = candidate w k,
                resp_ShortURL = baseURL @ ''/'' @ candidate w k,
                resp_OriginalURL = URL req, resp_CreatedAt = now,
                resp_ExpiresAt = expiresAt now req\<rparr>,
           w\<lparr>entropy := drop (6 * Suc k) (entropy w),
             issued := issued w @ map (\<lambda>i. CountByCode (candidate w i)) [0..<Suc k] @
                       [InsertShortCode (candidate w k)],
             short_codes := short_codes w @
               [\<lparr>ID = next_id (map ID (short_codes w)), Code = candidate w k,
                 OriginalURL = URL req, CreatedAt = now, UpdatedAt = now,
                 ExpiresAt = expiresAt now req, ClickCount = 0,
                 LastAccessedAt = None, DeletedAt = None\<rparr>]\<rparr>)"
      if fresh: "candidate w k \<notin> set (map Code (short_codes w))"
    proof -
      show ?thesis
        unfolding CreateShortCode_def choose
        using h(1,2) fresh by (simp add: Create_def send_def Let_def)
    qed
    show ?thesis
      using gen sh create by blast
  qed
  have exhausted: "CreateShortCode parse baseURL w now req =
       (Inl (Wrap ''failed to generate unique code''
               (New ''failed to generate unique code after max retries'')),
        w\<lparr>entropy := drop 30 (entropy w),
          issued := issued w @ map (\<lambda>i. CountByCode (candidate w i)) [0..<5]\<rparr>)"
    if h: "isValidURL parse (URL req)" "failing w = []" "30 \<le> length (entropy w)"
      and taken: "\<forall>i<5. fst (CodeExists w (candidate w i)) = Inr True"
  proof -
    have t: "\<forall>i<maxRetries. filter (\<lambda>r. Code r = candidate w i \<and> live r) (short_codes w) \<noteq> []"
      using taken existence_check [OF h(2)] by (simp add: maxRetries_def)
    have enough: "defaultCodeLength * maxRetries \<le> length (entropy w)"
      using h(3) by (simp add: defaultCodeLength_def maxRetries_def)
    have "generateUniqueCode w =
        (Inl (New ''failed to generate unique code after max retries''),
         w\<lparr>entropy := drop 30 (entropy w),
           issued := issued w @ map (\<lambda>i. CountByCode (candidate w i)) [0..<5]\<rparr>)"
      unfolding generateUniqueCode_def rounds_all_taken [OF h(2) enough t]
      by (simp add: defaultCodeLength_def maxRetries_def)
    then show ?thesis
      using h(1) assms by (simp add: CreateShortCode_def chooseCode_def)
  qed
  show ?thesis
    using attempts shape first exhausted by blast
qed


lemma upt_5: "[0..<Suc 4] = [0, Suc 0, 2, 3, 4]" "[0..<5] = [0, Suc 0, 2, 3, 4]"
  by (simp_all add: upt_rec)

lemma less_4: "(\<forall>i<4. P i) \<longleftrightarrow> P 0 \<and> P (Suc 0) \<and> P 2 \<and> P (3::nat)"
proof -
  have "i < 4 \<longleftrightarrow> i = 0 \<or> i = Suc 0 \<or> i = 2 \<or> i = 3" for i :: nat
    by arith
  then show ?thesis by auto
qed

lemma less_5: "(\<forall>i<5. P i) \<longleftrightarrow> P 0 \<and> P (Suc 0) \<and> P 2 \<and> P 3 \<and> P (4::nat)"
proof -
  have "i < 5 \<longleftrightarrow> i = 0 \<or> i = Suc 0 \<or> i = 2 \<or> i = 3 \<or> i = 4" for i :: nat
    by arith
  then show ?thesis by auto
qed

lemma retried_candidates:
  "candidate retried_world 0 = ''aaaaaa''"
  "candidate retried_world (Suc 0) = ''bbbbbb''"
  "candidate retried_world 2 = ''cccccc''"
  "candidate retried_world 3 = ''dddddd''"
  "candidate retried_world 4 = ''ffffff''"
  by (simp_all add: candidate_def retried_world_def taken_world_def initial_world_def
      defaultCodeLength_def charset_def)

lemma taken_candidates:
  "candidate taken_world 0 = ''aaaaaa''"
  "candidate taken_world (Suc 0) = ''bbbbbb''"
  "candidate taken_world 2 = ''cccccc''"
  "candidate taken_world 3 = ''dddddd''"
  "candidate taken_world 4 = ''eeeeee''"
  by (simp_all add: candidate_def taken_world_def initial_world_def
      defaultCodeLength_def charset_def)

lemma retried_checks:
  "fst (CodeExists retried_world ''aaaaaa'') = Inr True"
  "fst (CodeExists retried_world ''bbbbbb'') = Inr True"
  "fst (CodeExists retried_world ''cccccc'') = Inr True"
  "fst (CodeExists retried_world ''dddddd'') = Inr True"
  "fst (CodeExists retried_world ''ffffff'') = Inr False"
  by (simp_all add: CodeExists_def send_def retried_world_def taken_world_def initial_world_def
      example_row_def live_def)

lemma taken_checks:
  "fst (CodeExists taken_world ''aaaaaa'') = Inr True"
  "fst (CodeExists taken_world ''bbbbbb'') = Inr True"
  "fst (CodeExists taken_world ''cccccc'') = Inr True"
  "fst (CodeExists taken_world ''dddddd'') = Inr True"
  "fst (CodeExists taken_world ''eeeeee'') = Inr True"
  by (simp_all add: CodeExists_def send_def taken_world_def initial_world_def
      example_row_def live_def)

theorem generated_code_witness:
  "CustomCode generated_request = '''' \<and>
   isValidURL url_Parse (URL generated_request) \<and>
   failing retried_world = [] \<and> 30 \<le> length (entropy retried_world) \<and>
   candidate retried_world 0 = ''aaaaaa'' \<and>
   candidate retried_world 1 = ''bbbbbb'' \<and>
   candidate retried_world 2 = ''cccccc'' \<and>
   candidate retried_world 3 = ''dddddd'' \<and>
   candidate retried_world 4 = ''ffffff'' \<and>
   fst (CodeExists retried_world ''aaaaaa'') = Inr True \<and>
   fst (CodeExists retried_world ''bbbbbb'') = Inr True \<and>
   fst (CodeExists retried_world ''cccccc'') = Inr True \<and>
   fst (CodeExists retried_world ''dddddd'') = Inr True \<and>
   fst (CodeExists retried_world ''ffffff'') = Inr False \<and>
   ''ffffff'' \<notin> set (map Code (short_codes retried_world)) \<and>
   generateUniqueCode retried_world =
     (Inr ''ffffff'',
      retried_world\<lparr>entropy := [],
                     issued := [CountByCode ''aaaaaa'', CountByCode ''bbbbbb'',
                                CountByCode ''cccccc'', CountByCode ''dddddd'',
                                CountByCode ''ffffff'']\<rparr>) \<and>
   CreateShortCode url_Parse ''http://localhost:8080'' retried_world 7 generated_request =
     (Inr \<lparr>resp_ShortCode = ''ffffff'', resp_ShortURL = ''http://localhost:8080/ffffff'',
           resp_OriginalURL = ''https://example.com/a'', resp_CreatedAt = 7,
           resp_ExpiresAt = None\<rparr>,
      retried_world\<lparr>entropy := [],
                     issued := [CountByCode ''aaaaaa'', CountByCode ''bbbbbb'',
                                CountByCode ''cccccc'', CountByCode ''dddddd'',
                                CountByCode ''ffffff'', InsertShortCode ''ffffff''],
                     short_codes := short_codes retried_world @
                       [\<lparr>ID = 6, Code = ''ffffff'', OriginalURL = ''https://example.com/a'',
                         CreatedAt = 7, UpdatedAt = 7, ExpiresAt = None, ClickCount = 0,
                         LastAccessedAt = None, DeletedAt = None\<rparr>]\<rparr>) \<and>
   failing taken_world = [] \<and> 30 \<le> length (entropy taken_world) \<and>
   candidate taken_world 0 = ''aaaaaa'' \<and>
   candidate taken_world 1 = ''bbbbbb'' \<and>
   candidate taken_world 2 = ''cccccc'' \<and>
   candidate taken_world 3 = ''dddddd'' \<and>
   candidate taken_world 4 = ''eeeeee'' \<and>
   fst (CodeExists taken_world ''aaaaaa'') = Inr True \<and>
   fst (CodeExists taken_world ''bbbbbb'') = Inr True \<and>
   fst (CodeExists taken_world ''cccccc'') = Inr True \<and>
   fst (CodeExists taken_world ''dddddd'') = Inr True \<and>
   fst (CodeExists taken_world ''eeeeee'') = Inr True \<and>
   CreateShortCode url_Parse ''http://localhost:8080'' taken_world 7 generated_request =
     (Inl (Wrap ''failed to generate unique code''
             (New ''failed to generate unique code after max retries'')),
      taken_world\<lparr>entropy := [],
                    issued := [CountByCode ''aaaaaa'', CountByCode ''bbbbbb'',
                               CountByCode ''cccccc'', CountByCode ''dddddd'',
                               CountByCode ''eeeeee'']\<rparr>)"
proof -
  have h1: "CustomCode generated_request = ''''"
    by (simp add: generated_request_def)
  have h2: "isValidURL url_Parse (URL generated_request)"
    using valid_example by (simp add: generated_request_def)
  have r3: "failing retried_world = []" and r4: "30 \<le> length (entropy retried_world)"
    and r5: "''ffffff'' \<notin> set (map Code (short_codes retried_world))"
    by (simp_all add: retried_world_def taken_world_def initial_world_def example_row_def)
  have t3: "failing taken_world = []" and t4: "30 \<le> length (entropy taken_world)"
    by (simp_all add: taken_world_def initial_world_def)
  have r6: "\<forall>i<4. fst (CodeExists retried_world (candidate retried_world i)) = Inr True"
    unfolding less_4 by (simp add: retried_candidates retried_checks)
  have r7: "fst (CodeExists retried_world (candidate retried_world 4)) = Inr False"
    by (simp add: retried_candidates retried_checks)
  have r8: "candidate retried_world 4 \<notin> set (map Code (short_codes retried_world))"
    using r5 by (simp add: retried_candidates)
  have t6: "\<forall>i<5. fst (CodeExists taken_world (candidate taken_world i)) = Inr True"
    unfolding less_5 by (simp add: taken_candidates taken_checks)
  have k: "(4::nat) < 5" by simp
  note r = generated_code [OF h1, of retried_world url_Parse "''http://localhost:8080''" 7]
  note t = generated_code [OF h1, of taken_world url_Parse "''http://localhost:8080''" 7]
  have r_gen: "generateUniqueCode retried_world =
      (Inr (candidate retried_world 4),
       retried_world\<lparr>entropy := drop (6 * Suc 4) (entropy retried_world),
         issued := issued retried_world @
           map (\<lambda>i. CountByCode (candidate retried_world i)) [0..<Suc 4]\<rparr>)"
    using r h2 r3 r4 r6 r7 k by blast
  have r_create: "CreateShortCode url_Parse ''http://localhost:8080'' retried_world 7
        generated_request =
      (Inr \<lparr>resp_ShortCode = candidate retried_world 4,
            resp_ShortURL = ''http://localhost:8080'' @ ''/'' @ candidate retried_world 4,
            resp_OriginalURL = URL generated_request, resp_CreatedAt = 7,
            resp_ExpiresAt = expiresAt 7 generated_request\<rparr>,
       retried_world\<lparr>entropy := drop (6 * Suc 4) (entropy retried_world),
         issued := issued retried_world @
           map (\<lambda>i. CountByCode (candidate retried_world i)) [0..<Suc 4] @
           [InsertShortCode (candidate retried_world 4)],
         short_codes := short_codes retried_world @
           [\<lparr>ID = next_id (map ID (short_codes retried_world)),
             Code = candidate retried_world 4,
             OriginalURL = URL generated_request, CreatedAt = 7, UpdatedAt = 7,
             ExpiresAt = expiresAt 7 generated_request, ClickCount = 0,
             LastAccessedAt = None, DeletedAt = None\<rparr>]\<rparr>)"
    using r h2 r3 r4 r6 r7 r8 k by blast
  have t_create: "CreateShortCode url_Parse ''http://localhost:8080'' taken_world 7
        generated_request =
      (Inl (Wrap ''failed to generate unique code''
              (New ''failed to generate unique code after max retries'')),
       taken_world\<lparr>entropy := drop 30 (entropy taken_world),
         issued := issued taken_world @
           map (\<lambda>i. CountByCode (candidate taken_world i)) [0..<5]\<rparr>)"
    using t h2 t3 t4 t6 by blast
  have r_values: "drop (6 * Suc 4) (entropy retried_world) = []" "issued retried_world = []"
    "next_id (map ID (short_codes retried_world)) = 6"
    "URL generated_request = ''https://example.com/a''"
    "expiresAt 7 generated_request = None"
    by (simp_all add: retried_world_def taken_world_def initial_world_def example_row_def
        next_id_def generated_request_def expiresAt_def)
  have t_values: "drop 30 (entropy taken_world) = []" "issued taken_world = []"
    by (simp_all add: taken_world_def initial_world_def)
  have g1: "generateUniqueCode retried_world =
     (Inr ''ffffff'',
      retried_world\<lparr>entropy := [],
                     issued := [CountByCode ''aaaaaa'', CountByCode ''bbbbbb'',
                                CountByCode ''cccccc'', CountByCode ''dddddd'',
                                CountByCode ''ffffff'']\<rparr>)"
    unfolding r_gen upt_5 r_values by (simp add: retried_candidates)
  have g2: "CreateShortCode url_Parse ''http://localhost:8080'' retried_world 7 generated_request =
     (Inr \<lparr>resp_ShortCode = ''ffffff'', resp_ShortURL = ''http://localhost:8080/ffffff'',
           resp_OriginalURL = ''https://example.com/a'', resp_CreatedAt = 7,
           resp_ExpiresAt = None\<rparr>,
      retried_world\<lparr>entropy := [],
                     issued := [CountByCode ''aaaaaa'', CountByCode ''bbbbbb'',
                                CountByCode ''cccccc'', CountByCode ''dddddd'',
                                CountByCode ''ffffff'', InsertShortCode ''ffffff''],
                     short_codes := short_codes retried_world @
                       [\<lparr>ID = 6, Code = ''ffffff'', OriginalURL = ''https://example.com/a'',
                         CreatedAt = 7, UpdatedAt = 7, ExpiresAt = None, ClickCount = 0,
                         LastAccessedAt = None, DeletedAt = None\<rparr>]\<rparr>)"
    unfolding r_create upt_5 r_values by (simp add: retried_candidates)
  have g3: "CreateShortCode url_Parse ''http://localhost:8080'' taken_world 7 generated_request =
     (Inl (Wrap ''failed to generate unique code''
             (New ''failed to generate unique code after max retries'')),
      taken_world\<lparr>entropy := [],
                    issued := [CountByCode ''aaaaaa'', CountByCode ''bbbbbb'',
                               CountByCode ''cccccc'', CountByCode ''dddddd'',
                               CountByCode ''eeeeee'']\<rparr>)"
    unfolding t_create upt_5 t_values by (simp add: taken_candidates)
  show ?thesis
    using h1 h2 r3 r4 r5 t3 t4 g1 g2 g3
    by (simp add: retried_candidates taken_candidates retried_checks taken_checks)
qed


section \<open>The round trip when the cache holds nothing for the code\<close>

lemma rounds_cache: "cache (snd (generateUniqueCode_rounds n w)) = cache w"
proof (induction n arbitrary: w)
  case 0
  then show ?case by simp
next
  case (Suc n)
  show ?case
    by (simp add: generateRandomCode_eq CodeExists_def send_def Suc split_beta
        split: if_splits)
qed

lemma chooseCode_frame:
  "short_codes (snd (chooseCode w req)) = short_codes w \<and>
   failing (snd (chooseCode w req)) = failing w \<and>
   cache (snd (chooseCode w req)) = cache w"
proof (cases "CustomCode req = ''''")
  case True
  have "snd (chooseCode w req) = snd (generateUniqueCode w)"
    using True by (cases "generateUniqueCode w") (simp add: chooseCode_def split: sum.splits)
  then show ?thesis
    using rounds_trace [of maxRetries w] rounds_cache [of maxRetries w]
    by (simp add: generateUniqueCode_def)
next
  case False
  then show ?thesis
    by (simp add: chooseCode_def CodeExists_def send_def)
qed

lemma find_append_none:
  "\<forall>x \<in> set xs. \<not> P x \<Longrightarrow> find P (xs @ ys) = find P ys"
  by (induction xs) simp_all

text \<open>
  After a creation that succeeded, with the backends answering and no cache entry for the
  code, a read returns the URL of the request as long as the expiration (if any) is still
  ahead, and fails with \<open>ErrCodeNotFound\<close> from the expiration on.
\<close>

lemma created_row_read:
  assumes "failing w = []"
    and "fst (CreateShortCode parse baseURL w now req) = Inr resp"
    and "Mapping.lookup (cache w) (cacheKey (resp_ShortCode resp)) = None"
  shows "fst (GetOriginalURL (snd (CreateShortCode parse baseURL w now req)) t
            (resp_ShortCode resp)) =
         (if (case resp_ExpiresAt resp of None \<Rightarrow> True | Some e \<Rightarrow> t < e)
          then Inr (URL req) else Inl ErrCodeNotFound)"
proof -
  obtain res w1 where choose: "chooseCode w req = (res, w1)"
    by (cases "chooseCode w req")
  from assms(2) choose obtain code where res: "res = Inr code"
    by (cases res) (auto simp: CreateShortCode_def split: if_splits)
  have frame: "short_codes w1 = short_codes w" "failing w1 = []" "cache w1 = cache w"
    using chooseCode_frame [of w req] choose assms(1) by simp_all
  let ?sc = "\<lparr>ID = 0, Code = code, OriginalURL = URL req, CreatedAt = 0, UpdatedAt = 0,
      ExpiresAt = expiresAt now req, ClickCount = 0, LastAccessedAt = None, DeletedAt = None\<rparr>"
  let ?row = "?sc\<lparr>ID := next_id (map ID (short_codes w1)), CreatedAt := now, UpdatedAt := now\<rparr>"
  let ?w2 = "w1\<lparr>issued := issued w1 @ [InsertShortCode code],
                 short_codes := short_codes w1 @ [?row]\<rparr>"
  have fresh: "code \<notin> set (map Code (short_codes w1))"
    using assms(2) choose res frame(2)
    by (auto simp: CreateShortCode_def Create_def send_never_failing Let_def split: if_splits)
  then have ins: "Create w1 now ?sc = (Inr ?row, ?w2)"
    using frame(2) by (simp add: Create_def send_never_failing Let_def)
  have run: "CreateShortCode parse baseURL w now req =
      (Inr \<lparr>resp_ShortCode = code, resp_ShortURL = baseURL @ ''/'' @ code,
            resp_OriginalURL = URL req, resp_CreatedAt = now,
            resp_ExpiresAt = expiresAt now req\<rparr>, ?w2)"
    using assms(2) choose res ins by (auto simp: CreateShortCode_def split: if_splits)
  then have resp: "resp_ShortCode resp = code" "resp_ExpiresAt resp = expiresAt now req"
    using assms(2) by auto
  have miss: "Mapping.lookup (cache ?w2) (cacheKey code) = None"
    using assms(3) resp(1) frame(3) by simp
  have others: "\<forall>x \<in> set (short_codes w1). \<not> (Code x = code \<and> unexpired t x \<and> live x)"
    using fresh by auto
  have found: "find (\<lambda>r. Code r = code \<and> unexpired t r \<and> live r) (short_codes ?w2) =
      (if unexpired t ?row then Some ?row else None)"
    using find_append_none [OF others, of "[?row]"] by (simp add: live_def)
  have un: "unexpired t ?row = (case resp_ExpiresAt resp of None \<Rightarrow> True | Some e \<Rightarrow> t < e)"
    by (simp add: unexpired_def resp(2))
  have "fst (GetOriginalURL ?w2 t code) =
      (if unexpired t ?row then Inr (URL req) else Inl ErrCodeNotFound)"
    using miss found frame(2)
    by (simp add: GetOriginalURL_def GetByCode_def redis_Get_def send_never_failing Let_def
        split_beta)
  then show ?thesis
    unfolding run resp(1) un by simp
qed

section \<open>The lookback of the detailed statistics\<close>

lemma round_half_even_of_int: "round_half_even (of_int m) = m"
  by (simp add: round_half_even_def)

lemma round_half_even_ge: "of_int m \<le> y \<Longrightarrow> m \<le> round_half_even y"
proof -
  assume "of_int m \<le> y"
  then have "m \<le> \<lfloor>y\<rfloor>" by (simp add: le_floor_iff)
  then show ?thesis by (simp add: round_half_even_def Let_def)
qed

lemma round_half_even_le: "y \<le> of_int m \<Longrightarrow> round_half_even y \<le> m"
proof (cases "y = of_int \<lfloor>y\<rfloor>")
  case True
  assume "y \<le> of_int m"
  then have "\<lfloor>y\<rfloor> \<le> m" by (simp add: floor_le_iff) 
  moreover have "round_half_even y = \<lfloor>y\<rfloor>"
    using True by (simp add: round_half_even_def Let_def)
  ultimately show ?thesis by simp
next
  case False
  assume le: "y \<le> of_int m"
  have "of_int \<lfloor>y\<rfloor> < y" using False of_int_floor_le [of y] by linarith
  then have "of_int \<lfloor>y\<rfloor> < (of_int m :: rat)" using le by linarith
  then have "\<lfloor>y\<rfloor> < m" by simp
  then show ?thesis by (simp add: round_half_even_def Let_def)
qed

lemma ilog2_le:
  assumes "0 < x"
  shows "2 powi (ilog2 x) \<le> x"
proof -
  obtain p q where pq: "quotient_of x = (p, q)" by (cases "quotient_of x")
  have q: "0 < q" using pq quotient_of_denom_pos by blast
  have x: "x = of_int p / of_int q" using pq quotient_of_div by blast
  have p: "0 < p" using assms q x by (simp add: zero_less_divide_iff)
  let ?e = "bitlen p - bitlen q"
  show ?thesis
  proof (cases "2 powi ?e \<le> x")
    case True
    then show ?thesis by (simp add: ilog2_def pq)
  next
    case False
    then have e: "ilog2 x = ?e - 1" by (simp add: ilog2_def pq)
    have bp: "2 ^ nat (bitlen p - 1) \<le> p" using bitlen_bounds [OF p] by simp
    have bq: "q < 2 ^ nat (bitlen q)" using bitlen_bounds [OF q] by simp
    have p1: "1 \<le> bitlen p" using p bitlen_eq_zero_iff [of p] bitlen_nonneg [of p] by linarith
    have q1: "0 \<le> bitlen q" by (rule bitlen_nonneg)
    have split: "?e - 1 = (bitlen p - 1) - bitlen q" by simp
    have "(2::rat) powi (?e - 1) = 2 powi (bitlen p - 1) / 2 powi (bitlen q)"
      unfolding split by (rule power_int_diff) simp
    also have "\<dots> = 2 ^ nat (bitlen p - 1) / 2 ^ nat (bitlen q)"
      using p1 q1 by (simp add: power_int_def)
    also have "\<dots> \<le> of_int p / 2 ^ nat (bitlen q)"
    proof -
      have "(2::rat) ^ nat (bitlen p - 1) \<le> of_int p"
        using bp by (metis of_int_le_iff of_int_numeral of_int_power)
      then show ?thesis by (simp add: divide_right_mono)
    qed
    also have "\<dots> \<le> of_int p / of_int q"
    proof -
      have "(of_int q :: rat) \<le> 2 ^ nat (bitlen q)"
        using bq by (metis less_imp_le of_int_le_iff of_int_numeral of_int_power)
      then show ?thesis using p q by (simp add: frac_le)
    qed
    finally show ?thesis using e x by simp
  qed
qed

text \<open>
  \<open>ilog2\<close> is the exponent (with \<open>ilog2_le\<close>), and \<open>float64_pos\<close> moves its argument by
  at most half a unit of the last of the 53 bits.
\<close>

lemma ilog2_less:
  assumes "0 < x"
  shows "x < 2 powi (ilog2 x + 1)"
proof -
  obtain p q where pq: "quotient_of x = (p, q)" by (cases "quotient_of x")
  have q: "0 < q" using pq quotient_of_denom_pos by blast
  have x: "x = of_int p / of_int q" using pq quotient_of_div by blast
  have p: "0 < p" using assms q x by (simp add: zero_less_divide_iff)
  let ?e = "bitlen p - bitlen q"
  show ?thesis
  proof (cases "2 powi ?e \<le> x")
    case False
    then show ?thesis by (simp add: ilog2_def pq)
  next
    case True
    then have e: "ilog2 x = ?e" by (simp add: ilog2_def pq)
    have bp: "p < 2 ^ nat (bitlen p)" using bitlen_bounds [OF p] by simp
    have bq: "2 ^ nat (bitlen q - 1) \<le> q" using bitlen_bounds [OF q] by simp
    have p1: "0 \<le> bitlen p" by (rule bitlen_nonneg)
    have q1: "1 \<le> bitlen q" using q bitlen_eq_zero_iff [of q] bitlen_nonneg [of q] by linarith
    have pr: "(of_int p :: rat) < 2 ^ nat (bitlen p)"
      using bp by (metis of_int_less_iff of_int_numeral of_int_power)
    have qr: "(2::rat) ^ nat (bitlen q - 1) \<le> of_int q"
      using bq by (metis of_int_le_iff of_int_numeral of_int_power)
    have "of_int p / of_int q \<le> (of_int p :: rat) / 2 ^ nat (bitlen q - 1)"
      using p qr by (simp add: frac_le)
    also have "\<dots> < 2 ^ nat (bitlen p) / 2 ^ nat (bitlen q - 1)"
      using pr by (simp add: divide_strict_right_mono)
    also have "\<dots> = 2 powi (bitlen p) / 2 powi (bitlen q - 1)"
      using p1 q1 by (simp add: power_int_def)
    also have "\<dots> = 2 powi (bitlen p - (bitlen q - 1))"
      by (rule power_int_diff [symmetric]) simp
    also have "bitlen p - (bitlen q - 1) = ?e + 1" by simp
    finally show ?thesis using e x by simp
  qed
qed

lemma round_half_even_near: "\<bar>of_int (round_half_even y) - y\<bar> \<le> 1 / 2"
proof -
  define d where "d = y - of_int \<lfloor>y\<rfloor>"
  have d: "0 \<le> d" "d < 1" unfolding d_def by linarith+
  have r: "round_half_even y =
      (if d < 1 / 2 then \<lfloor>y\<rfloor> else if 1 / 2 < d then \<lfloor>y\<rfloor> + 1
       else if even \<lfloor>y\<rfloor> then \<lfloor>y\<rfloor> else \<lfloor>y\<rfloor> + 1)"
    by (simp add: round_half_even_def Let_def d_def)
  have y: "y = of_int \<lfloor>y\<rfloor> + d" by (simp add: d_def)
  consider "d < 1 / 2" | "1 / 2 < d" | "d = 1 / 2" by linarith
  then show ?thesis
  proof cases
    case 1
    then have "of_int (round_half_even y) - y = - d" using r y by simp
    then show ?thesis using d 1 by simp
  next
    case 2
    then have "of_int (round_half_even y) - y = 1 - d" using r y by simp
    then show ?thesis using d 2 by simp
  next
    case 3
    then have "of_int (round_half_even y) - y = - d \<or> of_int (round_half_even y) - y = 1 - d"
      using r y by simp
    then show ?thesis using 3 by auto
  qed
qed

lemma float64_pos_near:
  "\<bar>float64_pos x - x\<bar> \<le> 2 powi (ilog2 x - 53)"
proof -
  let ?u = "(2::rat) powi (ilog2 x - 52)"
  have u: "0 < ?u" by simp
  have "float64_pos x - x = (of_int (round_half_even (x / ?u)) - x / ?u) * ?u"
    using u by (simp add: float64_pos_def Let_def left_diff_distrib)
  then have "\<bar>float64_pos x - x\<bar> = \<bar>of_int (round_half_even (x / ?u)) - x / ?u\<bar> * ?u"
    using u by (simp add: abs_mult)
  also have "\<dots> \<le> 1 / 2 * ?u"
    using round_half_even_near [of "x / ?u"] u by (intro mult_right_mono) simp_all
  also have "\<dots> = 2 powi (ilog2 x - 53)"
  proof -
    have split: "ilog2 x - 53 = (ilog2 x - 52) - 1" by simp
    have "(2::rat) powi (ilog2 x - 53) = 2 powi (ilog2 x - 52) / 2 powi 1"
      unfolding split by (rule power_int_diff) simp
    then show ?thesis by simp
  qed
  finally show ?thesis .
qed

lemma float64_pos_between:
  assumes "0 < x" and "of_int a \<le> x" and "x \<le> of_int b" and "b < 2 ^ 53"
  shows "of_int a \<le> float64_pos x \<and> float64_pos x \<le> of_int b"
proof -
  let ?e = "ilog2 x"
  have "x < 2 ^ 53"
  proof -
    have "(of_int b :: rat) < of_int (2 ^ 53)" using assms(4) by (simp only: of_int_less_iff)
    then show ?thesis using assms(3) by simp
  qed
  have e: "?e \<le> 52"
  proof (rule ccontr)
    assume "\<not> ?e \<le> 52"
    then have "53 \<le> ?e" by simp
    then have "(2::rat) powi 53 \<le> 2 powi ?e" by (intro power_int_increasing) simp_all
    also have "\<dots> \<le> x" by (rule ilog2_le [OF assms(1)])
    finally show False using \<open>x < 2 ^ 53\<close> by simp
  qed
  define n where "n = nat (52 - ?e)"
  have u: "(2::rat) powi (?e - 52) = 1 / 2 ^ n"
  proof -
    have "?e - 52 = - int n" using e by (simp add: n_def)
    then have "(2::rat) powi (?e - 52) = 2 powi (- int n)" by simp
    also have "\<dots> = inverse (2 powi (int n))" by (rule power_int_minus)
    also have "\<dots> = 1 / 2 ^ n" by (simp add: inverse_eq_divide)
    finally show ?thesis .
  qed
  let ?r = "round_half_even (x * 2 ^ n)"
  have val: "float64_pos x = of_int ?r / 2 ^ n"
    by (simp add: float64_pos_def u)
  have "(of_int (a * 2 ^ n) :: rat) \<le> x * 2 ^ n"
    using assms(2) by simp
  then have lo: "a * 2 ^ n \<le> ?r" by (rule round_half_even_ge)
  have "x * 2 ^ n \<le> (of_int (b * 2 ^ n) :: rat)"
    using assms(3) by simp
  then have hi: "?r \<le> b * 2 ^ n" by (rule round_half_even_le)
  have "(of_int (a * 2 ^ n) :: rat) \<le> of_int ?r" using lo by (simp only: of_int_le_iff)
  then have lo': "(of_int a :: rat) \<le> of_int ?r / 2 ^ n"
    by (simp add: pos_le_divide_eq)
  have "(of_int ?r :: rat) \<le> of_int (b * 2 ^ n)" using hi by (simp only: of_int_le_iff)
  then have hi': "(of_int ?r :: rat) / 2 ^ n \<le> of_int b"
    by (simp add: pos_divide_le_eq)
  show ?thesis unfolding val using lo' hi' by simp
qed

lemma float64_between:
  assumes "0 \<le> a" and "of_int a \<le> x" and "x \<le> of_int b" and "b < 2 ^ 53"
  shows "of_int a \<le> float64 x \<and> float64 x \<le> of_int b"
proof (cases "x = 0")
  case True
  then show ?thesis using assms by (simp add: float64_def)
next
  case False
  have "(0::rat) \<le> of_int a" using assms(1) by simp
  then have "0 < x" using assms(2) False by linarith
  then show ?thesis
    using float64_pos_between [OF _ assms(2,3,4)] by (simp add: float64_def)
qed

lemma float64_of_nonneg_int:
  assumes "0 \<le> k" and "k < 2 ^ 53"
  shows "float64 (of_int k) = of_int k"
  using float64_between [OF assms(1) _ _ assms(2), of "of_int k"] by simp

lemma float64_minus: "float64 (- x) = - float64 x"
  by (simp add: float64_def)

lemma float64_of_int:
  assumes "\<bar>k\<bar> < 2 ^ 53"
  shows "float64 (of_int k) = of_int k"
proof (cases "0 \<le> k")
  case True
  then show ?thesis using assms by (simp add: float64_of_nonneg_int)
next
  case False
  then have "float64 (of_int (- k)) = of_int (- k)"
    using assms by (intro float64_of_nonneg_int) simp_all
  then show ?thesis by (simp add: float64_minus)
qed












end
